theory Spec2Isabelle
  imports Complex_Main "HOL-Library.Sublist" "HOL-Library.AList" "HOL-Library.List_Lexorder"
    "HOL-Library.Char_ord" "HOL-Library.Product_Lexorder"
begin

section \<open>Object store gateway (minio\_handler.py)\<close>

text \<open>
  A payload is a list of bytes; \<^typ>\<open>char\<close> is an 8-bit value, so \<^typ>\<open>string\<close> serves
  for both object keys and payloads.
\<close>

type_synonym bytes = string

datatype CVMDocumentAggregationType = INDIVIDUAL | CONSOLIDADO

text \<open>
  The provenance dictionary attached to an object. An entry of the dictionary is a field;
  the aggregation type is optional, as in the signature of \<open>save_file_to_bucket\<close>.
\<close>

record obj_metadata =
  md_file_hash :: string
  md_ingest_ts :: string
  md_ref_date :: string
  md_trace_id :: string
  md_source :: string
  md_document_type :: string
  md_aggregation_type :: "CVMDocumentAggregationType option"

text \<open>
  What \<open>put_object\<close> stores under a key. The metadata is optional: the placeholder objects
  written by \<open>create_and_configure_bucket\<close> carry none, and for them
  \<open>metadata.get(FILE_HASH, None)\<close> is \<open>None\<close>.
\<close>

record stored_object =
  obj_data :: bytes
  obj_content_type :: string
  obj_metadata :: "obj_metadata option"

text \<open>
  The bucket is an association list from object name to stored object. The client calls
  \<open>list_objects\<close>, \<open>stat_object\<close> and \<open>put_object\<close> are operations on it; failures of
  the network are outside the model.
\<close>

type_synonym bucket = "(string \<times> stored_object) list"

subsection \<open>\<open>pathlib.Path(...).parent\<close> on POSIX paths\<close>

text \<open>\<open>str.split(sep)\<close> for a one-character separator.\<close>

fun split_sep :: "char \<Rightarrow> string \<Rightarrow> string list" where
  "split_sep c [] = [[]]"
| "split_sep c (x # xs) =
     (if x = c then [] # split_sep c xs
      else (case split_sep c xs of [] \<Rightarrow> [[x]] | w # ws \<Rightarrow> (x # w) # ws))"

text \<open>\<open>sep.join(parts)\<close>.\<close>

fun join_sep :: "string \<Rightarrow> string list \<Rightarrow> string" where
  "join_sep sep [] = []"
| "join_sep sep [w] = w"
| "join_sep sep (w # v # ws) = w @ sep @ join_sep sep (v # ws)"

text \<open>
  \<open>posixpath.splitroot\<close>: no leading slash, no root; exactly two leading slashes are kept
  as the root \<open>//\<close>; otherwise the root is \<open>/\<close>. The drive is always empty on POSIX.
\<close>

definition splitroot :: "string \<Rightarrow> string \<times> string" where
  "splitroot p =
     (if take 1 p \<noteq> ''/'' then ('''', p)
      else if take 1 (drop 1 p) \<noteq> ''/'' \<or> take 1 (drop 2 p) = ''/'' then (''/'', drop 1 p)
      else (''//'', drop 2 p))"

text \<open>A parsed path: the root and the tail of name components.\<close>

type_synonym pure_path = "string \<times> string list"

text \<open>Parsing drops empty components and \<open>.\<close> components.\<close>

definition Path :: "string \<Rightarrow> pure_path" where
  "Path p = (case splitroot p of (rt, rel) \<Rightarrow>
     (rt, [x \<leftarrow> split_sep CHR ''/'' rel. x \<noteq> [] \<and> x \<noteq> ''.'']))"

text \<open>\<open>.parent\<close>: a path without components is its own parent.\<close>

definition parent :: "pure_path \<Rightarrow> pure_path" where
  "parent pp = (case pp of (rt, tail) \<Rightarrow>
     (if tail = [] then (rt, tail) else (rt, butlast tail)))"

text \<open>\<open>str(path)\<close>: the empty relative path prints as \<open>.\<close>.\<close>

definition path_str :: "pure_path \<Rightarrow> string" where
  "path_str pp = (case pp of (rt, tail) \<Rightarrow>
     (if rt = [] \<and> tail = [] then ''.'' else rt @ join_sep ''/'' tail))"

text \<open>The prefix handed to \<open>list_objects\<close>: \<open>f"{parent_folder}/"\<close>.\<close>

definition parent_folder_prefix :: "string \<Rightarrow> string" where
  "parent_folder_prefix save_file_path = path_str (parent (Path save_file_path)) @ ''/''"

subsection \<open>The client operations\<close>

text \<open>
  \<open>list_objects(prefix, recursive=True)\<close>: every object whose name starts with the prefix,
  at any depth below it. The order of the listing is the order of the association list.
\<close>

definition list_objects :: "bucket \<Rightarrow> string \<Rightarrow> string list" where
  "list_objects s pfx = [k \<leftarrow> map fst s. prefix pfx k]"

definition stat_object :: "bucket \<Rightarrow> string \<Rightarrow> stored_object option" where
  "stat_object s k = map_of s k"

text \<open>\<open>put_object\<close> replaces the object of an existing name and adds a new name at the end.\<close>

definition put_object :: "bucket \<Rightarrow> string \<Rightarrow> stored_object \<Rightarrow> bucket" where
  "put_object s k ob = AList.update k ob s"

text \<open>
  \<open>stat_object(...).metadata.get(FILE_HASH, None)\<close>. The names come from a listing of the
  same bucket, so the object exists; a name without object reads as \<open>None\<close> here.
\<close>

definition stored_file_hash :: "bucket \<Rightarrow> string \<Rightarrow> string option" where
  "stored_file_hash s k =
     (case stat_object s k of
        None \<Rightarrow> None
      | Some ob \<Rightarrow> (case obj_metadata ob of None \<Rightarrow> None | Some md \<Rightarrow> Some (md_file_hash md)))"

subsection \<open>\<open>save_file_to_bucket\<close>\<close>

text \<open>
  Modelled from the spec: \<open>create_put_obj_metadata\<close> (module \<open>file_operations\<close>, not among
  the sources). The spec lists the attributes of an artifact: content hash (a cryptographic
  digest of the bytes), ingest timestamp, trace id, data source, document type, optional
  reference date and optional aggregation type. The digest is the parameter \<open>digest\<close>.
\<close>

definition create_put_obj_metadata ::
  "(bytes \<Rightarrow> string) \<Rightarrow> string \<Rightarrow> string \<Rightarrow> string \<Rightarrow> string \<Rightarrow> string \<Rightarrow> bytes \<Rightarrow>
   CVMDocumentAggregationType option \<Rightarrow> obj_metadata" where
  "create_put_obj_metadata digest ingest_ts ref_date trace_id data_source doc_type file_bytes agg_type =
     \<lparr> md_file_hash = digest file_bytes,
       md_ingest_ts = ingest_ts,
       md_ref_date = ref_date,
       md_trace_id = trace_id,
       md_source = data_source,
       md_document_type = doc_type,
       md_aggregation_type = agg_type \<rparr>"

text \<open>The listing with the names ending in \<open>/\<close> removed.\<close>

definition file_paths :: "bucket \<Rightarrow> string \<Rightarrow> string list" where
  "file_paths s pfx = [k \<leftarrow> list_objects s pfx. \<not> suffix ''/'' k]"

text \<open>
  The \<open>for\<close> loop over \<open>file_paths\<close>: the first name whose stored hash equals the new hash
  ends the loop (and the call).
\<close>

fun find_same_hash :: "bucket \<Rightarrow> string \<Rightarrow> string list \<Rightarrow> string option" where
  "find_same_hash s new_file_hash [] = None"
| "find_same_hash s new_file_hash (k # ks) =
     (if Some new_file_hash = stored_file_hash s k then Some k
      else find_same_hash s new_file_hash ks)"

text \<open>
  What a call did: \<open>Aborted p\<close> is the early \<open>return\<close> after the warning that names the
  existing path \<open>p\<close>; \<open>Uploaded\<close> is the path through \<open>put_object\<close>.
\<close>

datatype put_outcome = Aborted string | Uploaded

definition save_file_to_bucket ::
  "(bytes \<Rightarrow> string) \<Rightarrow> bucket \<Rightarrow> string \<Rightarrow> bytes \<Rightarrow> string \<Rightarrow> string \<Rightarrow> string \<Rightarrow> string \<Rightarrow>
   string \<Rightarrow> string option \<Rightarrow> CVMDocumentAggregationType option \<Rightarrow> bucket \<times> put_outcome" where
  "save_file_to_bucket digest s save_file_path file_bytes ingest_ts trace_id doc_type content_type
     data_source ref_date agg_type =
     (let ref_date' = (case ref_date of None \<Rightarrow> '''' | Some r \<Rightarrow> r);
          metadata = create_put_obj_metadata digest ingest_ts ref_date' trace_id data_source
                       doc_type file_bytes agg_type;
          new_file_hash = md_file_hash metadata
      in case find_same_hash s new_file_hash (file_paths s (parent_folder_prefix save_file_path)) of
           Some curr_file_in_parent_folder \<Rightarrow> (s, Aborted curr_file_in_parent_folder)
         | None \<Rightarrow>
             (put_object s save_file_path
                \<lparr> obj_data = file_bytes, obj_content_type = content_type,
                  obj_metadata = Some metadata \<rparr>,
              Uploaded))"

text \<open>The names listed under a prefix whose stored hash is \<open>h\<close>.\<close>

definition artifacts_with_hash :: "bucket \<Rightarrow> string \<Rightarrow> string \<Rightarrow> string list" where
  "artifacts_with_hash s pfx h = [k \<leftarrow> file_paths s pfx. stored_file_hash s k = Some h]"

text \<open>
  A stand-in digest, the bytes themselves, used only to run the gateway on concrete inputs.
\<close>

definition plain_digest :: "bytes \<Rightarrow> string" where
  "plain_digest b = b"

text \<open>
  A name component of a key of the layered namespace: not empty, not \<open>.\<close>, without \<open>/\<close>.
\<close>

definition component :: "string \<Rightarrow> bool" where
  "component c \<longleftrightarrow> c \<noteq> [] \<and> c \<noteq> ''.'' \<and> CHR ''/'' \<notin> set c"

text \<open>The key of the file \<open>name\<close> in the folder given by its components.\<close>

definition key_in_folder :: "string list \<Rightarrow> string \<Rightarrow> string" where
  "key_in_folder folder name = join_sep ''/'' (folder @ [name])"

text \<open>The object that the upload path of \<open>save_file_to_bucket\<close> hands to \<open>put_object\<close>.\<close>

definition new_object ::
  "(bytes \<Rightarrow> string) \<Rightarrow> bytes \<Rightarrow> string \<Rightarrow> string \<Rightarrow> string \<Rightarrow> string \<Rightarrow>
   string \<Rightarrow> string option \<Rightarrow> CVMDocumentAggregationType option \<Rightarrow> stored_object" where
  "new_object digest b ts tr dt ct ds rd ag =
     \<lparr> obj_data = b, obj_content_type = ct,
       obj_metadata = Some (create_put_obj_metadata digest ts
          (case rd of None \<Rightarrow> [] | Some r \<Rightarrow> r) tr ds dt b ag) \<rparr>"

section \<open>Tables of the financial-statement stages (etls/cvm\_etl.py)\<close>

text \<open>
  A calendar date, as \<open>datetime.date\<close>. The date columns are modelled as parsed dates.
\<close>

datatype date = Date (d_year: int) (d_month: nat) (d_day: nat)

text \<open>The order of \<open>datetime.date\<close>: by year, then month, then day.\<close>

definition date_key :: "date \<Rightarrow> int \<times> nat \<times> nat" where
  "date_key d = (d_year d, d_month d, d_day d)"

datatype DocumentTypes =
    ITR | IPE | FRE | DFP
  | BALANCO_PATRIMONIAL_ATIVO | BALANCO_PATRIMONIAL_PASSIVO
  | FLUXO_DE_CAIXA_INDIRETO | DRE
  | FATO_RELEVANTE | COMUNICADOS_AO_MERCADO | ESCRITURAS_E_ADITAMENTO_DE_DEBENTURES
  | DEMONSTRATIVOS_FINANCEIROS_FINAL

text \<open>
  One line of a raw regulator extract, restricted to the columns the stages read. A numeric
  cell is \<open>None\<close> when it is null (NaN). A character of a Python string is a code point;
  the code points used here are below 256 and each is one \<^typ>\<open>char\<close>.
\<close>

record raw_row =
  CNPJ_CIA :: string
  DT_REFER :: date
  DT_FIM_EXERC :: date
  ORDEM_EXERC :: string
  CD_CONTA :: string
  VL_CONTA :: "real option"
  ESCALA_MOEDA :: string

text \<open>A cleaned row carries the tag of the file family it came from.\<close>

record statement_row = raw_row +
  ORIGIN_FILE :: string

text \<open>
  The value of the aggregation-type entry of an object's metadata: the value of one of the
  two members of \<open>CVMDocumentAggregationType\<close>, or any other string.
\<close>

datatype agg_value = AggValue CVMDocumentAggregationType | OtherValue string

record enriched_row = statement_row +
  enr_adjusted_account_value :: "real option"
  enr_last_updated_date :: string
  enr_origin_document_type :: DocumentTypes
  enr_ingestion_trace_id :: string
  enr_source :: string
  enr_aggregation_type :: agg_value
  enr_quarter :: nat
  enr_year :: int
  enr_account_type :: "string option"

datatype error =
    S3Error string
  | KeyError string
  | ValueError string
  | AssertionError "string option"

text \<open>
  Modelled from the spec: \<open>fmts.get_quarter\<close> (module \<open>formats\<close>, not among the sources).
  The spec gives the rule: month \<open>\<le> 3\<close> is quarter 1, \<open>\<le> 6\<close> quarter 2, \<open>\<le> 9\<close> quarter 3,
  else quarter 4.
\<close>

definition get_quarter :: "date \<Rightarrow> nat" where
  "get_quarter d =
     (if d_month d \<le> 3 then 1 else if d_month d \<le> 6 then 2 else if d_month d \<le> 9 then 3 else 4)"

section \<open>Quarterly metrics derivation (\<open>calculate_detailed_financials_quarterly\<close>)\<close>

text \<open>\<open>Series.sum()\<close> skips the null cells; the sum of no cell is 0.\<close>

definition pd_sum :: "real option list \<Rightarrow> real option" where
  "pd_sum cells = Some (sum_list [v. Some v \<leftarrow> cells])"

text \<open>
  The helper \<open>get_account_value\<close>: the mask is code equality in exact mode and
  \<open>str.startswith\<close> otherwise; a null sum is replaced by 0.
\<close>

definition get_account_value :: "enriched_row list \<Rightarrow> string \<Rightarrow> bool \<Rightarrow> real" where
  "get_account_value group_df account_code exact =
     (let mask = (if exact then (\<lambda>r. CD_CONTA r = account_code)
                  else (\<lambda>r. prefix account_code (CD_CONTA r)));
          result = pd_sum (map enr_adjusted_account_value (filter mask group_df))
      in case result of Some v \<Rightarrow> v | None \<Rightarrow> 0)"

text \<open>One entry of \<open>results\<close>.\<close>

record quarterly_record =
  issuer_cnpj :: string
  date :: date
  quarter :: nat
  year :: int
  revenue :: real
  ebitda :: real
  ebit :: real
  depreciation :: real
  net_debt :: real
  total_debt :: real
  debt_short_term :: real
  debt_long_term :: real
  cash :: real
  interest_paid :: real
  capex :: real
  wc_change :: real

text \<open>
  \<open>df.groupby(['CNPJ_CIA', 'DT_REFER'])\<close>: one group per distinct key, the keys in sorted
  order, each group holding the rows of its key in table order.
\<close>

definition groupby_cnpj_dt_refer :: "enriched_row list \<Rightarrow> ((string \<times> date) \<times> enriched_row list) list" where
  "groupby_cnpj_dt_refer df =
     map (\<lambda>name. (name, [r \<leftarrow> df. (CNPJ_CIA r, DT_REFER r) = name]))
       (sort_key (\<lambda>name. (fst name, date_key (snd name)))
          (remdups (map (\<lambda>r. (CNPJ_CIA r, DT_REFER r)) df)))"

text \<open>The body of the loop over the groups.\<close>

definition group_record :: "(string \<times> date) \<Rightarrow> enriched_row list \<Rightarrow> quarterly_record" where
  "group_record name group_df =
     (let cnpj = fst name; dt_refer = snd name;
          revenue_v = get_account_value group_df ''3.01'' True;
          ebit_v = get_account_value group_df ''3.05'' True;
          depreciation_v = get_account_value group_df ''3.04.04'' True;
          ebitda_v = ebit_v + depreciation_v;
          debt_st = get_account_value group_df ''2.01.04'' False;
          debt_lt = get_account_value group_df ''2.02.01'' False;
          cash_v = get_account_value group_df ''1.01.01'' True;
          total_debt_v = debt_st + debt_lt;
          net_debt_v = total_debt_v - cash_v;
          interest_cf = get_account_value group_df ''6.01.02.02'' False;
          interest_is = get_account_value group_df ''3.06.02'' True;
          interest_paid_v = (if interest_cf \<noteq> 0 then interest_cf else interest_is);
          capex_v = get_account_value group_df ''6.02.01'' False;
          wc_change_v = get_account_value group_df ''6.01.02'' False
      in \<lparr> issuer_cnpj = cnpj,
           date = dt_refer,
           quarter = get_quarter dt_refer,
           year = d_year dt_refer,
           revenue = revenue_v,
           ebitda = ebitda_v,
           ebit = ebit_v,
           depreciation = depreciation_v,
           net_debt = net_debt_v,
           total_debt = total_debt_v,
           debt_short_term = debt_st,
           debt_long_term = debt_lt,
           cash = cash_v,
           interest_paid = \<bar>interest_paid_v\<bar>,
           capex = \<bar>capex_v\<bar>,
           wc_change = wc_change_v \<rparr>)"

text \<open>The list \<open>results\<close> built for one enriched table.\<close>

definition financials_quarterly :: "enriched_row list \<Rightarrow> quarterly_record list" where
  "financials_quarterly df = map (\<lambda>(name, group_df). group_record name group_df) (groupby_cnpj_dt_refer df)"

text \<open>A row with a given company, reference date, account code and adjusted value.\<close>

definition account_row :: "string \<Rightarrow> date \<Rightarrow> string \<Rightarrow> real option \<Rightarrow> enriched_row" where
  "account_row cnpj dt code v =
     \<lparr> CNPJ_CIA = cnpj, DT_REFER = dt, DT_FIM_EXERC = dt, ORDEM_EXERC = ''ULTIMO'',
       CD_CONTA = code, VL_CONTA = v, ESCALA_MOEDA = ''UNIDADE'', ORIGIN_FILE = ''ITR'',
       enr_adjusted_account_value = v, enr_last_updated_date = '''',
       enr_origin_document_type = DRE, enr_ingestion_trace_id = '''', enr_source = ''CVM'',
       enr_aggregation_type = AggValue CONSOLIDADO, enr_quarter = get_quarter dt,
       enr_year = d_year dt, enr_account_type = None \<rparr>"

section \<open>Statement reconciliation (\<open>FS_filter_and_clean\<close>)\<close>

text \<open>
  The values the stages read from the ETL object and its configuration: the run's trace
  id, the formatted company identifier, the formatted last-update date and the value of
  the data source.
\<close>

record etl_config =
  cfg_trace_id :: string
  cfg_formatted_cnpj :: string
  cfg_formatted_last_update_date :: string
  cfg_data_source_value :: string

text \<open>
  A raw file as \<open>pd.read_csv\<close> parses it: the list of column names and the rows. The
  typed fields of a row are read only after the column list has been checked.
\<close>

record raw_table =
  tbl_columns :: "string list"
  tbl_rows :: "raw_row list"

text \<open>The raw objects of the bucket by path.\<close>

type_synonym raw_store = "(string \<times> raw_table) list"

definition FINANCIAL_STATEMENTS_GROUPING :: "(string \<times> CVMDocumentAggregationType) list" where
  "FINANCIAL_STATEMENTS_GROUPING = [(''_con_'', CONSOLIDADO), (''_ind_'', INDIVIDUAL)]"

definition ITR_FILE_PART_TO_DOCUMENT_TYPE :: "(string \<times> DocumentTypes) list" where
  "ITR_FILE_PART_TO_DOCUMENT_TYPE =
     [(''BPA'', BALANCO_PATRIMONIAL_ATIVO),
      (''BPP'', BALANCO_PATRIMONIAL_PASSIVO),
      (''DFC_MI'', FLUXO_DE_CAIXA_INDIRETO),
      (''DRE'', DRE)]"

text \<open>The exercise period kept, \<open>ULTIMO\<close> with an acute accent on the first letter.\<close>

definition EXERCISE_PERIOD_TO_CONSIDER :: string where
  "EXERCISE_PERIOD_TO_CONSIDER = CHR 0xDA # ''LTIMO''"

text \<open>The message of the assertion on the company filter.\<close>

definition cnpj_filter_message :: "string \<Rightarrow> string \<Rightarrow> string" where
  "cnpj_filter_message curr_file_path formatted_cnpj =
     ''Failure while filtering the DF for file '' @ [CHR 0x27] @ curr_file_path @ [CHR 0x27] @
     ''. Please confirm the provided company CNPJ '' @ [CHR 0x27] @ formatted_cnpj @ [CHR 0x27] @
     '' in the environment file.''"

text \<open>
  The body of the loop over the selected files, up to the rows handed to \<open>pd.concat\<close>.
  A missing object is the error of \<open>get_object\<close>. The schema assertion carries no message
  (its message expression is the result of a logger call). The parameter \<open>schema\<close> gives
  the column names of the declared schema of a document type
  (\<open>fmts.get_document_schema_from_doc_type\<close> is not among the sources).
\<close>

definition clean_file ::
  "(DocumentTypes \<Rightarrow> string list) \<Rightarrow> etl_config \<Rightarrow> raw_store \<Rightarrow> DocumentTypes \<Rightarrow> string \<Rightarrow>
   error + statement_row list" where
  "clean_file schema cfg store curr_document_type curr_file_path =
     (case map_of store curr_file_path of
        None \<Rightarrow> Inl (S3Error curr_file_path)
      | Some curr_file \<Rightarrow>
          if tbl_columns curr_file \<noteq> schema curr_document_type then Inl (AssertionError None)
          else
            (let by_cnpj = [r \<leftarrow> tbl_rows curr_file. CNPJ_CIA r = cfg_formatted_cnpj cfg]
             in if by_cnpj = []
                then Inl (AssertionError
                            (Some (cnpj_filter_message curr_file_path (cfg_formatted_cnpj cfg))))
                else
                  (let by_period = [r \<leftarrow> by_cnpj. ORDEM_EXERC r = EXERCISE_PERIOD_TO_CONSIDER]
                   in Inr (map (\<lambda>r. \<lparr> CNPJ_CIA = CNPJ_CIA r, DT_REFER = DT_REFER r,
                                       DT_FIM_EXERC = DT_FIM_EXERC r, ORDEM_EXERC = ORDEM_EXERC r,
                                       CD_CONTA = CD_CONTA r, VL_CONTA = VL_CONTA r,
                                       ESCALA_MOEDA = ESCALA_MOEDA r,
                                       ORIGIN_FILE = (if sublist ''dfp_'' curr_file_path
                                                      then ''DFP'' else ''ITR'') \<rparr>)
                             by_period))))"

text \<open>
  The loop over \<open>selected_files\<close>: each file's rows are appended to \<open>joined_df\<close>; the first
  error ends the stage.
\<close>

fun join_files ::
  "(DocumentTypes \<Rightarrow> string list) \<Rightarrow> etl_config \<Rightarrow> raw_store \<Rightarrow> DocumentTypes \<Rightarrow>
   statement_row list \<Rightarrow> string list \<Rightarrow> error + statement_row list" where
  "join_files schema cfg store curr_document_type joined_df [] = Inr joined_df"
| "join_files schema cfg store curr_document_type joined_df (curr_file_path # selected_files) =
     (case clean_file schema cfg store curr_document_type curr_file_path of
        Inl e \<Rightarrow> Inl e
      | Inr curr_file_df \<Rightarrow>
          join_files schema cfg store curr_document_type (joined_df @ curr_file_df) selected_files)"

text \<open>
  One table of the silver-cleaned layer: what the stage hands to \<open>save_file_to_bucket\<close>
  for one combination of year, aggregation level and statement type.
\<close>

record cleaned_output =
  co_document_type :: DocumentTypes
  co_aggregation :: CVMDocumentAggregationType
  co_year :: string
  co_table :: "statement_row list"

text \<open>The body of the innermost of the three nested loops.\<close>

definition clean_combination ::
  "(DocumentTypes \<Rightarrow> string list) \<Rightarrow> etl_config \<Rightarrow> raw_store \<Rightarrow> string list \<Rightarrow>
   string \<times> (string \<times> CVMDocumentAggregationType) \<times> (string \<times> DocumentTypes) \<Rightarrow>
   error + cleaned_output" where
  "clean_combination schema cfg store files_path combination =
     (case combination of (curr_year, (curr_agg_part, curr_agg), (curr_file_part, curr_document_type)) \<Rightarrow>
        (let selected_files =
               [file_path \<leftarrow> files_path. sublist (curr_file_part @ curr_agg_part @ curr_year) file_path]
         in case join_files schema cfg store curr_document_type [] selected_files of
              Inl e \<Rightarrow> Inl e
            | Inr joined_df \<Rightarrow>
                Inr \<lparr> co_document_type = curr_document_type, co_aggregation = curr_agg,
                      co_year = curr_year, co_table = joined_df \<rparr>))"

text \<open>Running a loop body over a list, stopping at the first error.\<close>

fun for_each :: "('a \<Rightarrow> error + 'b) \<Rightarrow> 'a list \<Rightarrow> error + 'b list" where
  "for_each body [] = Inr []"
| "for_each body (x # xs) =
     (case body x of
        Inl e \<Rightarrow> Inl e
      | Inr y \<Rightarrow> (case for_each body xs of Inl e \<Rightarrow> Inl e | Inr ys \<Rightarrow> Inr (y # ys)))"

text \<open>The combinations in the order of the three nested loops.\<close>

definition combinations ::
  "string list \<Rightarrow> (string \<times> (string \<times> CVMDocumentAggregationType) \<times> (string \<times> DocumentTypes)) list" where
  "combinations years_to_process =
     concat (map (\<lambda>curr_year.
       concat (map (\<lambda>grouping.
         map (\<lambda>file_part. (curr_year, grouping, file_part)) ITR_FILE_PART_TO_DOCUMENT_TYPE)
         FINANCIAL_STATEMENTS_GROUPING))
       years_to_process)"

definition FS_filter_and_clean ::
  "(DocumentTypes \<Rightarrow> string list) \<Rightarrow> etl_config \<Rightarrow> raw_store \<Rightarrow> string list \<Rightarrow> string list \<Rightarrow>
   error + cleaned_output list" where
  "FS_filter_and_clean schema cfg store files_path years_to_process =
     for_each (clean_combination schema cfg store files_path) (combinations years_to_process)"

section \<open>Statement enrichment (\<open>FS_enrich\<close>)\<close>

definition ESCALA_MOEDA_MAPPING :: "(string \<times> real) list" where
  "ESCALA_MOEDA_MAPPING =
     [(''UNIDADE'', 1),
      (''MIL'', 1000),
      (''MILHOES'', 1000000),
      (''MILH'' @ [CHR 0xD5] @ ''ES'', 1000000)]"

text \<open>\<open>Series.map(dict)\<close> on one cell: a value that is no key of the dictionary maps to null.\<close>

definition series_map :: "(string \<times> real) list \<Rightarrow> string \<Rightarrow> real option" where
  "series_map mapping cell = map_of mapping cell"

text \<open>The product of two cells is null when either is.\<close>

definition cell_times :: "real option \<Rightarrow> real option \<Rightarrow> real option" where
  "cell_times a b = (case a of None \<Rightarrow> None | Some x \<Rightarrow> (case b of None \<Rightarrow> None | Some y \<Rightarrow> Some (x * y)))"

text \<open>
  The metadata of a silver-cleaned object as the stage reads it: the document type, and
  the aggregation-type entry, \<open>None\<close> when the dictionary has no such key.
\<close>

record file_metadata =
  fm_document_type :: DocumentTypes
  fm_aggregation_type :: "agg_value option"

text \<open>The silver-cleaned objects of the bucket by path: metadata and table.\<close>

type_synonym cleaned_store = "(string \<times> file_metadata \<times> statement_row list) list"

text \<open>The columns added to one table.\<close>

definition enrich_table ::
  "etl_config \<Rightarrow> DocumentTypes \<Rightarrow> agg_value \<Rightarrow> statement_row list \<Rightarrow> enriched_row list" where
  "enrich_table cfg document_type aggregation_type curr_file_df =
     map (\<lambda>r. \<lparr> CNPJ_CIA = CNPJ_CIA r, DT_REFER = DT_REFER r, DT_FIM_EXERC = DT_FIM_EXERC r,
                ORDEM_EXERC = ORDEM_EXERC r, CD_CONTA = CD_CONTA r, VL_CONTA = VL_CONTA r,
                ESCALA_MOEDA = ESCALA_MOEDA r, ORIGIN_FILE = ORIGIN_FILE r,
                enr_adjusted_account_value =
                  cell_times (VL_CONTA r) (series_map ESCALA_MOEDA_MAPPING (ESCALA_MOEDA r)),
                enr_last_updated_date = cfg_formatted_last_update_date cfg,
                enr_origin_document_type = document_type,
                enr_ingestion_trace_id = cfg_trace_id cfg,
                enr_source = cfg_data_source_value cfg,
                enr_aggregation_type = aggregation_type,
                enr_quarter = get_quarter (DT_FIM_EXERC r),
                enr_year = d_year (DT_FIM_EXERC r),
                enr_account_type =
                  (if document_type = BALANCO_PATRIMONIAL_ATIVO then Some ''ATIVO''
                   else if document_type = BALANCO_PATRIMONIAL_PASSIVO then Some ''PASSIVO''
                   else None) \<rparr>)
       curr_file_df"

text \<open>\<open>curr_file_path.split('/')[-1]\<close>.\<close>

definition dict_key_of :: "string \<Rightarrow> string" where
  "dict_key_of curr_file_path = last (split_sep CHR ''/'' curr_file_path)"

text \<open>
  The loop over the input paths. The two dictionaries are association lists in insertion
  order; assigning to an existing key replaces its table.
\<close>

fun enrich_loop ::
  "etl_config \<Rightarrow> cleaned_store \<Rightarrow> string list \<Rightarrow>
   (string \<times> enriched_row list) list \<Rightarrow> (string \<times> enriched_row list) list \<Rightarrow>
   error + ((string \<times> enriched_row list) list \<times> (string \<times> enriched_row list) list)" where
  "enrich_loop cfg store [] agg_individual_dfs agg_consolidado_dfs =
     Inr (agg_individual_dfs, agg_consolidado_dfs)"
| "enrich_loop cfg store (curr_file_path # rest) agg_individual_dfs agg_consolidado_dfs =
     (case map_of store curr_file_path of
        None \<Rightarrow> Inl (S3Error curr_file_path)
      | Some (file_metadata, table) \<Rightarrow>
          (case fm_aggregation_type file_metadata of
             None \<Rightarrow> Inl (KeyError ''aggregation_type'')
           | Some aggregation_type \<Rightarrow>
               (let curr_file_df = enrich_table cfg (fm_document_type file_metadata)
                                     aggregation_type table;
                    dict_key = dict_key_of curr_file_path
                in if aggregation_type = AggValue INDIVIDUAL
                   then enrich_loop cfg store rest
                          (AList.update dict_key curr_file_df agg_individual_dfs) agg_consolidado_dfs
                   else if aggregation_type = AggValue CONSOLIDADO
                   then enrich_loop cfg store rest
                          agg_individual_dfs (AList.update dict_key curr_file_df agg_consolidado_dfs)
                   else enrich_loop cfg store rest agg_individual_dfs agg_consolidado_dfs)))"

text \<open>\<open>pd.concat(dict, ignore_index=True)\<close>: an empty dictionary is a \<open>ValueError\<close>.\<close>

definition pd_concat :: "(string \<times> 'a list) list \<Rightarrow> error + 'a list" where
  "pd_concat dfs =
     (if dfs = [] then Inl (ValueError ''No objects to concatenate'')
      else Inr (concat (map snd dfs)))"

text \<open>The later of two dates.\<close>

definition date_max :: "date \<Rightarrow> date \<Rightarrow> date" where
  "date_max a b = (if date_key a < date_key b then b else a)"

text \<open>\<open>Series.max()\<close> of a date column; null for a column without rows.\<close>

definition column_max :: "date list \<Rightarrow> date option" where
  "column_max ds = (case ds of [] \<Rightarrow> None | d # rest \<Rightarrow> Some (fold date_max rest d))"

text \<open>
  One consolidated table of the silver-enriched layer: the aggregation type it is saved
  for, the value handed to \<open>create_ref_date\<close>, and the rows.
\<close>

record enriched_output =
  eo_aggregation :: CVMDocumentAggregationType
  eo_ref_date :: "date option"
  eo_table :: "enriched_row list"

definition FS_enrich ::
  "etl_config \<Rightarrow> cleaned_store \<Rightarrow> string list \<Rightarrow> error + enriched_output list" where
  "FS_enrich cfg store silver_cleaned_files_path =
     (case enrich_loop cfg store silver_cleaned_files_path [] [] of
        Inl e \<Rightarrow> Inl e
      | Inr (agg_individual_dfs, agg_consolidado_dfs) \<Rightarrow>
          (case pd_concat agg_consolidado_dfs of
             Inl e \<Rightarrow> Inl e
           | Inr joined_consolidado_df \<Rightarrow>
               (case pd_concat agg_individual_dfs of
                  Inl e \<Rightarrow> Inl e
                | Inr joined_individual_df \<Rightarrow>
                    Inr (map (\<lambda>(curr_df, curr_agg).
                               \<lparr> eo_aggregation = curr_agg,
                                 eo_ref_date = column_max (map DT_FIM_EXERC curr_df),
                                 eo_table = curr_df \<rparr>)
                          [(joined_individual_df, INDIVIDUAL),
                           (joined_consolidado_df, CONSOLIDADO)]))))"

text \<open>What the stage reads of a stored table, for stating properties of its inputs.\<close>

definition aggregation_at :: "cleaned_store \<Rightarrow> string \<Rightarrow> agg_value option" where
  "aggregation_at store path =
     (case map_of store path of None \<Rightarrow> None | Some (md, table) \<Rightarrow> fm_aggregation_type md)"

definition table_at :: "cleaned_store \<Rightarrow> string \<Rightarrow> statement_row list" where
  "table_at store path = (case map_of store path of None \<Rightarrow> [] | Some (md, table) \<Rightarrow> table)"

definition enriched_at :: "etl_config \<Rightarrow> cleaned_store \<Rightarrow> string \<Rightarrow> enriched_row list" where
  "enriched_at cfg store path =
     (case map_of store path of
        None \<Rightarrow> []
      | Some (md, table) \<Rightarrow>
          (case fm_aggregation_type md of
             None \<Rightarrow> []
           | Some a \<Rightarrow> enrich_table cfg (fm_document_type md) a table))"

text \<open>A cleaned row with a given period-end date, value and currency-scale unit.\<close>

definition scale_row :: "date \<Rightarrow> real option \<Rightarrow> string \<Rightarrow> statement_row" where
  "scale_row dt v unit_name =
     \<lparr> CNPJ_CIA = ''c'', DT_REFER = dt, DT_FIM_EXERC = dt, ORDEM_EXERC = EXERCISE_PERIOD_TO_CONSIDER,
       CD_CONTA = ''3.01'', VL_CONTA = v, ESCALA_MOEDA = unit_name, ORIGIN_FILE = ''ITR'' \<rparr>"

definition example_config :: etl_config where
  "example_config =
     \<lparr> cfg_trace_id = ''run1'', cfg_formatted_cnpj = ''c'',
       cfg_formatted_last_update_date = ''2024-07-01'', cfg_data_source_value = ''CVM'' \<rparr>"

text \<open>The invariant of the loop: every table of a dictionary is an enriched table.\<close>

definition enriched_tables :: "etl_config \<Rightarrow> (string \<times> enriched_row list) list \<Rightarrow> bool" where
  "enriched_tables cfg dfs \<longleftrightarrow>
     (\<forall>(k, t) \<in> set dfs. \<exists>d a table. t = enrich_table cfg d a table)"

section \<open>Concrete inputs\<close>

text \<open>A stand-in schema, the same for every document type: the columns of the model's rows.\<close>

definition example_schema :: "DocumentTypes \<Rightarrow> string list" where
  "example_schema document_type =
     [''CNPJ_CIA'', ''DT_REFER'', ''DT_FIM_EXERC'', ''ORDEM_EXERC'', ''CD_CONTA'', ''VL_CONTA'',
      ''ESCALA_MOEDA'']"

text \<open>A raw row of a given company, period-end date, value and currency-scale unit.\<close>

definition raw_example_row :: "string \<Rightarrow> date \<Rightarrow> real option \<Rightarrow> string \<Rightarrow> raw_row" where
  "raw_example_row cnpj dt v unit_name =
     \<lparr> CNPJ_CIA = cnpj, DT_REFER = dt, DT_FIM_EXERC = dt, ORDEM_EXERC = EXERCISE_PERIOD_TO_CONSIDER,
       CD_CONTA = ''3.01'', VL_CONTA = v, ESCALA_MOEDA = unit_name \<rparr>"

text \<open>
  Three raw files of 2024: one without a row of the configured company, one whose columns
  are not the declared ones, and one that passes both checks.
\<close>

definition example_raw_store :: raw_store where
  "example_raw_store =
     [(''bronze/raw/itr_cia_aberta_DRE_con_2024.csv'',
         \<lparr> tbl_columns = example_schema DRE,
           tbl_rows = [raw_example_row ''other'' (Date 2024 6 30) (Some 10) ''MIL''] \<rparr>),
      (''bronze/raw/itr_cia_aberta_BPA_con_2024.csv'',
         \<lparr> tbl_columns = [''CNPJ_CIA'', ''DT_REFER''],
           tbl_rows = [raw_example_row ''c'' (Date 2024 6 30) (Some 10) ''MIL''] \<rparr>),
      (''bronze/raw/itr_cia_aberta_BPP_con_2024.csv'',
         \<lparr> tbl_columns = example_schema BALANCO_PATRIMONIAL_PASSIVO,
           tbl_rows = [raw_example_row ''c'' (Date 2024 6 30) (Some 10) ''MIL''] \<rparr>)]"

text \<open>The metadata of a cleaned table of a document type and an aggregation type.\<close>

definition cleaned_metadata :: "DocumentTypes \<Rightarrow> CVMDocumentAggregationType \<Rightarrow> file_metadata" where
  "cleaned_metadata document_type agg =
     \<lparr> fm_document_type = document_type, fm_aggregation_type = Some (AggValue agg) \<rparr>"

text \<open>Two cleaned tables, one per aggregation type; one row has a unit outside the lookup table.\<close>

definition example_cleaned_store :: cleaned_store where
  "example_cleaned_store =
     [(''silver/cleaned/DRE_INDIVIDUAL_2024.parquet'', cleaned_metadata DRE INDIVIDUAL,
         [scale_row (Date 2024 3 31) (Some 1000) ''MIL'',
          scale_row (Date 2024 6 30) (Some 1000) ''UNIDADE'']),
      (''silver/cleaned/DRE_CONSOLIDADO_2024.parquet'', cleaned_metadata DRE CONSOLIDADO,
         [scale_row (Date 2024 6 30) (Some 5) ''BILHOES'',
          scale_row (Date 2024 3 31) (Some 2) ''MILHOES''])]"

definition example_cleaned_paths :: "string list" where
  "example_cleaned_paths =
     [''silver/cleaned/DRE_INDIVIDUAL_2024.parquet'', ''silver/cleaned/DRE_CONSOLIDADO_2024.parquet'']"

text \<open>
  Three cleaned tables of one row each; the two Individual ones have the same file name
  in different folders.
\<close>

definition colliding_cleaned_store :: cleaned_store where
  "colliding_cleaned_store =
     [(''silver/cleaned/2023/DRE.parquet'', cleaned_metadata DRE INDIVIDUAL,
         [scale_row (Date 2023 12 31) (Some 1) ''MIL'']),
      (''silver/cleaned/2024/DRE.parquet'', cleaned_metadata DRE INDIVIDUAL,
         [scale_row (Date 2024 6 30) (Some 2) ''MIL'']),
      (''silver/cleaned/2024/DRE_con.parquet'', cleaned_metadata DRE CONSOLIDADO,
         [scale_row (Date 2024 6 30) (Some 3) ''MIL''])]"

section \<open>Properties of the object store gateway\<close>

lemma find_same_hash_None:
  "find_same_hash s h ks = None \<longleftrightarrow> (\<forall>k \<in> set ks. stored_file_hash s k \<noteq> Some h)"
  by (induction ks) auto

lemma find_same_hash_Some:
  "find_same_hash s h ks = Some k \<Longrightarrow> k \<in> set ks \<and> stored_file_hash s k = Some h"
  by (induction ks) (auto split: if_splits)

lemma find_same_hash_artifacts:
  "find_same_hash s h (file_paths s pfx) = None \<longleftrightarrow> artifacts_with_hash s pfx h = []"
  by (auto simp: find_same_hash_None artifacts_with_hash_def filter_empty_conv)

lemma stat_put_object:
  "stat_object (put_object s k ob) k' = (if k' = k then Some ob else stat_object s k')"
  by (simp add: stat_object_def put_object_def update_conv')

lemma set_file_paths_put:
  "set (file_paths (put_object s k ob) pfx) =
     set (file_paths s pfx) \<union> (if prefix pfx k \<and> \<not> suffix ''/'' k then {k} else {})"
  by (auto simp: file_paths_def list_objects_def put_object_def dom_update)

lemma file_paths_prefix:
  "k \<in> set (file_paths s pfx) \<Longrightarrow> prefix pfx k"
  by (simp add: file_paths_def list_objects_def)

lemma stored_file_hash_put:
  "stored_file_hash (put_object s k ob) k' =
     (if k' = k then map_option md_file_hash (obj_metadata ob) else stored_file_hash s k')"
  by (auto simp: stored_file_hash_def stat_put_object split: option.splits)

lemma md_file_hash_create:
  "md_file_hash (create_put_obj_metadata digest ts rd tr ds dt b ag) = digest b"
  by (simp add: create_put_obj_metadata_def)

lemma save_cases:
  "save_file_to_bucket digest s p b ts tr dt ct ds rd ag =
     (case find_same_hash s (digest b) (file_paths s (parent_folder_prefix p)) of
        Some q \<Rightarrow> (s, Aborted q)
      | None \<Rightarrow> (put_object s p (new_object digest b ts tr dt ct ds rd ag), Uploaded))"
  by (simp add: save_file_to_bucket_def Let_def md_file_hash_create new_object_def
        split: option.splits)

lemma new_object_simps:
  "obj_data (new_object digest b ts tr dt ct ds rd ag) = b"
  "map_option md_file_hash (obj_metadata (new_object digest b ts tr dt ct ds rd ag)) = Some (digest b)"
  by (simp_all add: new_object_def md_file_hash_create)

lemma save_aborted:
  assumes "k' \<in> set (file_paths s (parent_folder_prefix p))"
      and "stored_file_hash s k' = Some (digest b)"
  shows "\<exists>q. save_file_to_bucket digest s p b ts tr dt ct ds rd ag = (s, Aborted q)"
proof -
  from assms have "find_same_hash s (digest b) (file_paths s (parent_folder_prefix p)) \<noteq> None"
    by (auto simp: find_same_hash_None)
  then show ?thesis by (auto simp: save_cases)
qed

lemma save_uploaded:
  assumes "artifacts_with_hash s (parent_folder_prefix p) (digest b) = []"
  shows "save_file_to_bucket digest s p b ts tr dt ct ds rd ag =
     (put_object s p (new_object digest b ts tr dt ct ds rd ag), Uploaded)"
  using assms by (simp add: save_cases find_same_hash_artifacts [symmetric])

lemma save_hash_present:
  assumes "prefix (parent_folder_prefix p) p" and "\<not> suffix ''/'' p"
  shows "\<exists>k' \<in> set (file_paths (fst (save_file_to_bucket digest s p b ts tr dt ct ds rd ag)) (parent_folder_prefix p)).
           stored_file_hash (fst (save_file_to_bucket digest s p b ts tr dt ct ds rd ag)) k' = Some (digest b)"
proof (cases "find_same_hash s (digest b) (file_paths s (parent_folder_prefix p))")
  case None
  then show ?thesis using assms
    by (auto simp: save_cases set_file_paths_put stored_file_hash_put new_object_simps)
next
  case (Some q)
  then show ?thesis
    by (auto simp: save_cases dest: find_same_hash_Some)
qed

lemma save_twice_same_prefix:
  assumes "parent_folder_prefix k2 = parent_folder_prefix k1"
      and "prefix (parent_folder_prefix k1) k1"
      and "\<not> suffix ''/'' k1"
  shows "(let s1 = fst (save_file_to_bucket digest s k1 b ts1 tr1 dt1 ct1 ds1 rd1 ag1);
              r2 = save_file_to_bucket digest s1 k2 b ts2 tr2 dt2 ct2 ds2 rd2 ag2
          in fst r2 = s1 \<and> (\<exists>q. snd r2 = Aborted q) \<and>
             (artifacts_with_hash s (parent_folder_prefix k1) (digest b) = [] \<longrightarrow>
                set (artifacts_with_hash (fst r2) (parent_folder_prefix k1) (digest b)) = {k1}) \<and>
             (artifacts_with_hash s (parent_folder_prefix k1) (digest b) \<noteq> [] \<longrightarrow> fst r2 = s))"
proof -
  let ?s1 = "fst (save_file_to_bucket digest s k1 b ts1 tr1 dt1 ct1 ds1 rd1 ag1)"
  let ?r2 = "save_file_to_bucket digest ?s1 k2 b ts2 tr2 dt2 ct2 ds2 rd2 ag2"
  let ?P = "parent_folder_prefix k1"
  obtain k' where k': "k' \<in> set (file_paths ?s1 ?P)" "stored_file_hash ?s1 k' = Some (digest b)"
    using save_hash_present [OF assms(2,3)] by blast
  then obtain q where q: "?r2 = (?s1, Aborted q)"
    using save_aborted [where digest=digest and b=b and k'=k' and s="?s1" and p=k2] assms(1) by metis
  have fresh: "set (artifacts_with_hash ?s1 ?P (digest b)) = {k1}"
    if "artifacts_with_hash s ?P (digest b) = []"
  proof -
    have none: "\<forall>k \<in> set (file_paths s ?P). stored_file_hash s k \<noteq> Some (digest b)"
      using that by (simp add: artifacts_with_hash_def filter_empty_conv)
    show ?thesis
      using assms(2,3) none
      by (auto simp: save_uploaded [where digest=digest and b=b, OF that] artifacts_with_hash_def set_file_paths_put
            stored_file_hash_put new_object_simps split: if_splits)
  qed
  have old: "?s1 = s" if "artifacts_with_hash s ?P (digest b) \<noteq> []"
    using that by (auto simp: save_cases find_same_hash_artifacts [symmetric] split: option.splits)
  have "fst ?r2 = ?s1" and "snd ?r2 = Aborted q"
    using q by simp_all
  then show ?thesis
    unfolding Let_def using fresh old by (metis (full_types))
qed

lemma split_sep_no_sep: "c \<notin> set w \<Longrightarrow> split_sep c w = [w]"
  by (induction w) auto

lemma split_sep_append: "c \<notin> set w \<Longrightarrow> split_sep c (w @ c # rest) = w # split_sep c rest"
  by (induction w) (auto split: list.splits)

lemma split_join:
  "cs \<noteq> [] \<Longrightarrow> \<forall>w \<in> set cs. CHR ''/'' \<notin> set w \<Longrightarrow>
     split_sep CHR ''/'' (join_sep ''/'' cs) = cs"
proof (induction "''/''" cs rule: join_sep.induct)
  case 1
  then show ?case by simp
next
  case (2 w)
  then show ?case by (simp add: split_sep_no_sep)
next
  case (3 w v ws)
  then show ?case by (simp add: split_sep_append)
qed

lemma join_sep_snoc: "d \<noteq> [] \<Longrightarrow> join_sep sep (d @ [n]) = join_sep sep d @ sep @ n"
  by (induction sep d rule: join_sep.induct) auto

lemma join_sep_first:
  "cs \<noteq> [] \<Longrightarrow> hd cs \<noteq> [] \<Longrightarrow> \<exists>rest. join_sep sep cs = hd (hd cs) # rest"
  by (induction sep cs rule: join_sep.induct) (auto simp: neq_Nil_conv)

lemma Path_key_in_folder:
  assumes "folder \<noteq> []" and "\<forall>c \<in> set folder. component c" and "component name"
  shows "Path (key_in_folder folder name) = ('''', folder @ [name])"
proof -
  let ?cs = "folder @ [name]"
  have ne: "?cs \<noteq> []" by simp
  have all: "\<forall>w \<in> set ?cs. component w" using assms(2,3) by simp
  then have nosep: "\<forall>w \<in> set ?cs. CHR ''/'' \<notin> set w"
    by (simp add: component_def)
  have h: "hd ?cs \<noteq> []" "CHR ''/'' \<notin> set (hd ?cs)"
    using assms(1,2) by (auto simp: component_def hd_append)
  then have "hd (hd ?cs) \<noteq> CHR ''/''"
    by (cases "hd ?cs") auto
  moreover obtain rest where "join_sep ''/'' ?cs = hd (hd ?cs) # rest"
    using join_sep_first [OF ne h(1)] by blast
  ultimately have "take 1 (join_sep ''/'' ?cs) \<noteq> ''/''"
    by simp
  then have sr: "splitroot (key_in_folder folder name) = ('''', key_in_folder folder name)"
    by (simp add: splitroot_def key_in_folder_def)
  have flt: "[x \<leftarrow> ?cs. x \<noteq> [] \<and> x \<noteq> ''.''] = ?cs"
    using all by (auto simp: component_def filter_id_conv)
  have sp: "split_sep CHR ''/'' (key_in_folder folder name) = ?cs"
    by (simp only: key_in_folder_def split_join [OF ne nosep])
  show ?thesis
    by (simp only: Path_def sr prod.case sp flt)
qed

lemma prefix_key_in_folder:
  assumes "folder \<noteq> []" and "\<forall>c \<in> set folder. component c" and "component name"
  shows "parent_folder_prefix (key_in_folder folder name) = join_sep ''/'' folder @ ''/''"
    and "prefix (parent_folder_prefix (key_in_folder folder name)) (key_in_folder folder name)"
    and "\<not> suffix ''/'' (key_in_folder folder name)"
proof -
  show p: "parent_folder_prefix (key_in_folder folder name) = join_sep ''/'' folder @ ''/''"
    using assms(1)
    by (simp add: parent_folder_prefix_def Path_key_in_folder [OF assms] parent_def path_str_def)
  have k: "key_in_folder folder name = join_sep ''/'' folder @ ''/'' @ name"
    by (simp add: key_in_folder_def join_sep_snoc [OF assms(1)])
  show "prefix (parent_folder_prefix (key_in_folder folder name)) (key_in_folder folder name)"
    by (simp only: p) (simp add: k)
  have "name \<noteq> []" "last name \<noteq> CHR ''/''"
    using assms(3) by (auto simp: component_def dest: last_in_set)
  then have "last (key_in_folder folder name) \<noteq> CHR ''/''"
    unfolding k by simp
  then show "\<not> suffix ''/'' (key_in_folder folder name)"
    by (auto simp: suffix_def)
qed

text \<open>
  Claim C1. Let \<open>k1\<close> and \<open>k2\<close> be the keys of two file names in the same destination
  folder of the layered namespace. The scan of either call lists the folder's prefix.
  After a first call has put the payload \<open>b\<close> under \<open>k1\<close>, a second call with the same
  bytes under \<open>k2\<close> is a no-op: the scan finds an object with the payload's hash, the call
  returns through the early \<open>return\<close> and the bucket is the one the first call left.
  When the folder held no artifact with that hash beforehand, it holds exactly one
  afterwards, under \<open>k1\<close>; when it held one, both calls leave the bucket as it was.
\<close>

theorem save_same_bytes_twice:
  assumes "folder \<noteq> []"
      and "\<forall>c \<in> set folder. component c"
      and "component name1"
      and "component name2"
  shows "(let k1 = key_in_folder folder name1;
              k2 = key_in_folder folder name2;
              pfx = join_sep ''/'' folder @ ''/'';
              s1 = fst (save_file_to_bucket digest s k1 b ts1 tr1 dt1 ct1 ds1 rd1 ag1);
              r2 = save_file_to_bucket digest s1 k2 b ts2 tr2 dt2 ct2 ds2 rd2 ag2
          in parent_folder_prefix k1 = pfx \<and> parent_folder_prefix k2 = pfx \<and>
             fst r2 = s1 \<and> (\<exists>q. snd r2 = Aborted q) \<and>
             (artifacts_with_hash s pfx (digest b) = [] \<longrightarrow>
                set (artifacts_with_hash (fst r2) pfx (digest b)) = {k1}) \<and>
             (artifacts_with_hash s pfx (digest b) \<noteq> [] \<longrightarrow> fst r2 = s))"
proof -
  let ?k1 = "key_in_folder folder name1"
  let ?k2 = "key_in_folder folder name2"
  let ?pfx = "join_sep ''/'' folder @ ''/''"
  have p1: "parent_folder_prefix ?k1 = ?pfx"
    by (rule prefix_key_in_folder(1) [OF assms(1,2,3)])
  have p2: "parent_folder_prefix ?k2 = ?pfx"
    by (rule prefix_key_in_folder(1) [OF assms(1,2,4)])
  have same: "parent_folder_prefix ?k2 = parent_folder_prefix ?k1"
    by (simp only: p1 p2)
  note G = save_twice_same_prefix [OF same prefix_key_in_folder(2,3) [OF assms(1,2,3)],
      of digest s b ts1 tr1 dt1 ct1 ds1 rd1 ag1 ts2 tr2 dt2 ct2 ds2 rd2 ag2]
  from G have g: "fst (save_file_to_bucket digest
                        (fst (save_file_to_bucket digest s ?k1 b ts1 tr1 dt1 ct1 ds1 rd1 ag1))
                        ?k2 b ts2 tr2 dt2 ct2 ds2 rd2 ag2) =
                   fst (save_file_to_bucket digest s ?k1 b ts1 tr1 dt1 ct1 ds1 rd1 ag1) \<and>
                 (\<exists>q. snd (save_file_to_bucket digest
                        (fst (save_file_to_bucket digest s ?k1 b ts1 tr1 dt1 ct1 ds1 rd1 ag1))
                        ?k2 b ts2 tr2 dt2 ct2 ds2 rd2 ag2) = Aborted q) \<and>
                 (artifacts_with_hash s ?pfx (digest b) = [] \<longrightarrow>
                    set (artifacts_with_hash (fst (save_file_to_bucket digest
                        (fst (save_file_to_bucket digest s ?k1 b ts1 tr1 dt1 ct1 ds1 rd1 ag1))
                        ?k2 b ts2 tr2 dt2 ct2 ds2 rd2 ag2)) ?pfx (digest b)) = {?k1}) \<and>
                 (artifacts_with_hash s ?pfx (digest b) \<noteq> [] \<longrightarrow>
                    fst (save_file_to_bucket digest
                        (fst (save_file_to_bucket digest s ?k1 b ts1 tr1 dt1 ct1 ds1 rd1 ag1))
                        ?k2 b ts2 tr2 dt2 ct2 ds2 rd2 ag2) = s)"
    unfolding Let_def p1 .
  show ?thesis
    unfolding Let_def using p1 p2 g by (intro conjI) blast+
qed

theorem save_same_bytes_twice_witness:
  "component ''silver'' \<and> component ''cleaned'' \<and> component ''a.parquet'' \<and>
   component ''b.parquet'' \<and>
   key_in_folder [''silver'', ''cleaned''] ''a.parquet'' = ''silver/cleaned/a.parquet'' \<and>
   key_in_folder [''silver'', ''cleaned''] ''b.parquet'' = ''silver/cleaned/b.parquet'' \<and>
   artifacts_with_hash [] ''silver/cleaned/'' (plain_digest ''xyz'') = [] \<and>
   (let s1 = fst (save_file_to_bucket plain_digest [] ''silver/cleaned/a.parquet'' ''xyz''
                    ''t1'' ''run1'' ''DRE'' ''parquet'' ''CVM'' None None);
        r2 = save_file_to_bucket plain_digest s1 ''silver/cleaned/b.parquet'' ''xyz''
                    ''t2'' ''run2'' ''DRE'' ''parquet'' ''CVM'' None None
    in fst r2 = s1 \<and> (\<exists>q. snd r2 = Aborted q) \<and>
       set (artifacts_with_hash (fst r2) ''silver/cleaned/'' (plain_digest ''xyz'')) =
         {''silver/cleaned/a.parquet''}) \<and>
   artifacts_with_hash
     [(''silver/cleaned/sub/old.parquet'',
       new_object plain_digest ''xyz'' ''t0'' ''run0'' ''DRE'' ''parquet'' ''CVM'' None None)]
     ''silver/cleaned/'' (plain_digest ''xyz'') \<noteq> [] \<and>
   fst (save_file_to_bucket plain_digest
         (fst (save_file_to_bucket plain_digest
                [(''silver/cleaned/sub/old.parquet'',
                  new_object plain_digest ''xyz'' ''t0'' ''run0'' ''DRE'' ''parquet'' ''CVM'' None None)]
                ''silver/cleaned/a.parquet'' ''xyz'' ''t1'' ''run1'' ''DRE'' ''parquet'' ''CVM''
                None None))
         ''silver/cleaned/b.parquet'' ''xyz'' ''t2'' ''run2'' ''DRE'' ''parquet'' ''CVM'' None None)
     = [(''silver/cleaned/sub/old.parquet'',
         new_object plain_digest ''xyz'' ''t0'' ''run0'' ''DRE'' ''parquet'' ''CVM'' None None)]"
proof -
  let ?s0 = "[(''silver/cleaned/sub/old.parquet'',
       new_object plain_digest ''xyz'' ''t0'' ''run0'' ''DRE'' ''parquet'' ''CVM'' None None)]"
  have c: "component ''silver''" "component ''cleaned''" "component ''a.parquet''"
    "component ''b.parquet''"
    by code_simp+
  have f: "[''silver'', ''cleaned''] \<noteq> []" by simp
  have fc: "\<forall>c \<in> set [''silver'', ''cleaned'']. component c"
    using c by simp
  have k: "key_in_folder [''silver'', ''cleaned''] ''a.parquet'' = ''silver/cleaned/a.parquet''"
    "key_in_folder [''silver'', ''cleaned''] ''b.parquet'' = ''silver/cleaned/b.parquet''"
    "join_sep ''/'' [''silver'', ''cleaned''] @ ''/'' = ''silver/cleaned/''"
    by code_simp+
  have h4: "artifacts_with_hash [] ''silver/cleaned/'' (plain_digest ''xyz'') = []"
    by code_simp
  have h5: "artifacts_with_hash ?s0 ''silver/cleaned/'' (plain_digest ''xyz'') \<noteq> []"
    by code_simp
  note A = save_same_bytes_twice [OF f fc c(3) c(4), where digest = plain_digest and s = "[]"
      and b = "''xyz''" and ?ts1.0 = "''t1''" and ?tr1.0 = "''run1''" and ?dt1.0 = "''DRE''"
      and ?ct1.0 = "''parquet''" and ?ds1.0 = "''CVM''" and ?rd1.0 = None and ?ag1.0 = None
      and ?ts2.0 = "''t2''" and ?tr2.0 = "''run2''" and ?dt2.0 = "''DRE''"
      and ?ct2.0 = "''parquet''" and ?ds2.0 = "''CVM''" and ?rd2.0 = None and ?ag2.0 = None,
      unfolded k]
  note B = save_same_bytes_twice [OF f fc c(3) c(4), where digest = plain_digest and s = ?s0
      and b = "''xyz''" and ?ts1.0 = "''t1''" and ?tr1.0 = "''run1''" and ?dt1.0 = "''DRE''"
      and ?ct1.0 = "''parquet''" and ?ds1.0 = "''CVM''" and ?rd1.0 = None and ?ag1.0 = None
      and ?ts2.0 = "''t2''" and ?tr2.0 = "''run2''" and ?dt2.0 = "''DRE''"
      and ?ct2.0 = "''parquet''" and ?ds2.0 = "''CVM''" and ?rd2.0 = None and ?ag2.0 = None,
      unfolded k]
  have first: "(let s1 = fst (save_file_to_bucket plain_digest [] ''silver/cleaned/a.parquet'' ''xyz''
                    ''t1'' ''run1'' ''DRE'' ''parquet'' ''CVM'' None None);
        r2 = save_file_to_bucket plain_digest s1 ''silver/cleaned/b.parquet'' ''xyz''
                    ''t2'' ''run2'' ''DRE'' ''parquet'' ''CVM'' None None
    in fst r2 = s1 \<and> (\<exists>q. snd r2 = Aborted q) \<and>
       set (artifacts_with_hash (fst r2) ''silver/cleaned/'' (plain_digest ''xyz'')) =
         {''silver/cleaned/a.parquet''})"
    using A h4 by (metis (no_types))
  have second: "fst (save_file_to_bucket plain_digest
         (fst (save_file_to_bucket plain_digest ?s0
                ''silver/cleaned/a.parquet'' ''xyz'' ''t1'' ''run1'' ''DRE'' ''parquet'' ''CVM''
                None None))
         ''silver/cleaned/b.parquet'' ''xyz'' ''t2'' ''run2'' ''DRE'' ''parquet'' ''CVM'' None None)
     = ?s0"
    using B h5 by (metis (no_types))
  from c k(1,2) h4 first h5 second show ?thesis
    by blast
qed

text \<open>
  Claim C10. When the scan of \<open>save_file_to_bucket\<close> meets an object \<open>k'\<close> of the
  destination folder whose stored hash is the hash of the new payload, the call writes
  nothing: the bucket it returns is the bucket it was given, whatever the requested key
  and the provenance supplied, so no object appears under the requested key, the
  duplicate keeps its metadata and the new provenance is attached nowhere.
\<close>

theorem duplicate_found_no_write:
  assumes "k' \<in> set (file_paths s (parent_folder_prefix save_file_path))"
      and "stored_file_hash s k' = Some (digest file_bytes)"
  shows "fst (save_file_to_bucket digest s save_file_path file_bytes ingest_ts trace_id doc_type
               content_type data_source ref_date agg_type) = s \<and>
         (\<exists>q. snd (save_file_to_bucket digest s save_file_path file_bytes ingest_ts trace_id doc_type
               content_type data_source ref_date agg_type) = Aborted q) \<and>
         stat_object (fst (save_file_to_bucket digest s save_file_path file_bytes ingest_ts trace_id
               doc_type content_type data_source ref_date agg_type)) save_file_path =
           stat_object s save_file_path \<and>
         stat_object (fst (save_file_to_bucket digest s save_file_path file_bytes ingest_ts trace_id
               doc_type content_type data_source ref_date agg_type)) k' =
           stat_object s k'"
proof -
  obtain q where "save_file_to_bucket digest s save_file_path file_bytes ingest_ts trace_id doc_type
               content_type data_source ref_date agg_type = (s, Aborted q)"
    using save_aborted [where digest=digest and b=file_bytes, OF assms] by blast
  then show ?thesis by simp
qed

theorem duplicate_found_no_write_witness:
  "''silver/cleaned/a.parquet'' \<in> set (file_paths
       [(''silver/cleaned/a.parquet'', new_object plain_digest ''xyz'' ''t0'' ''run0'' ''DRE'' ''parquet'' ''CVM'' None None)]
       (parent_folder_prefix ''silver/cleaned/b.parquet'')) \<and>
   stored_file_hash
       [(''silver/cleaned/a.parquet'', new_object plain_digest ''xyz'' ''t0'' ''run0'' ''DRE'' ''parquet'' ''CVM'' None None)]
       ''silver/cleaned/a.parquet'' = Some (plain_digest ''xyz'') \<and>
   fst (save_file_to_bucket plain_digest
       [(''silver/cleaned/a.parquet'', new_object plain_digest ''xyz'' ''t0'' ''run0'' ''DRE'' ''parquet'' ''CVM'' None None)]
       ''silver/cleaned/b.parquet'' ''xyz'' ''t1'' ''run1'' ''DRE'' ''parquet'' ''CVM'' (Some ''2024'') (Some CONSOLIDADO))
     = [(''silver/cleaned/a.parquet'', new_object plain_digest ''xyz'' ''t0'' ''run0'' ''DRE'' ''parquet'' ''CVM'' None None)]"
proof -
  let ?s = "[(''silver/cleaned/a.parquet'', new_object plain_digest ''xyz'' ''t0'' ''run0'' ''DRE'' ''parquet'' ''CVM'' None None)]"
  have h1: "''silver/cleaned/a.parquet'' \<in> set (file_paths ?s (parent_folder_prefix ''silver/cleaned/b.parquet''))"
    by code_simp
  have h2: "stored_file_hash ?s ''silver/cleaned/a.parquet'' = Some (plain_digest ''xyz'')"
    by code_simp
  show ?thesis
    using duplicate_found_no_write [where digest = plain_digest and file_bytes = "''xyz''", OF h1 h2] h1 h2
    by blast
qed

text \<open>
  Claim C9, amended. Deduplication is scoped to the parent-folder prefix of the target
  key, searched recursively. For two distinct destination folders such that the key
  written first does not lie under the prefix of the folder written second, and neither
  scan meets the payload's hash in the initial bucket, writing the same bytes once into
  each folder uploads both objects and both are stored afterwards.
\<close>

theorem dedup_folder_scoped:
  assumes "parent_folder_prefix k1 \<noteq> parent_folder_prefix k2"
      and "\<not> prefix (parent_folder_prefix k2) k1"
      and "artifacts_with_hash s (parent_folder_prefix k1) (digest b) = []"
      and "artifacts_with_hash s (parent_folder_prefix k2) (digest b) = []"
  shows "(let r1 = save_file_to_bucket digest s k1 b ts1 tr1 dt1 ct1 ds1 rd1 ag1;
              r2 = save_file_to_bucket digest (fst r1) k2 b ts2 tr2 dt2 ct2 ds2 rd2 ag2
          in snd r1 = Uploaded \<and> snd r2 = Uploaded \<and>
             map_option obj_data (stat_object (fst r2) k1) = Some b \<and>
             map_option obj_data (stat_object (fst r2) k2) = Some b)"
proof -
  let ?s1 = "put_object s k1 (new_object digest b ts1 tr1 dt1 ct1 ds1 rd1 ag1)"
  have r1: "save_file_to_bucket digest s k1 b ts1 tr1 dt1 ct1 ds1 rd1 ag1 = (?s1, Uploaded)"
    by (rule save_uploaded [where digest=digest and b=b, OF assms(3)])
  have ne: "k1 \<noteq> k2" using assms(1) by auto
  have none: "\<forall>k \<in> set (file_paths s (parent_folder_prefix k2)). stored_file_hash s k \<noteq> Some (digest b)"
    using assms(4) by (simp add: artifacts_with_hash_def filter_empty_conv)
  have "artifacts_with_hash ?s1 (parent_folder_prefix k2) (digest b) = []"
    using assms(2) none
    by (auto simp: artifacts_with_hash_def filter_empty_conv set_file_paths_put stored_file_hash_put
          split: if_splits dest: file_paths_prefix)
  from save_uploaded [where digest=digest and b=b, OF this]
  have r2: "save_file_to_bucket digest ?s1 k2 b ts2 tr2 dt2 ct2 ds2 rd2 ag2 =
     (put_object ?s1 k2 (new_object digest b ts2 tr2 dt2 ct2 ds2 rd2 ag2), Uploaded)" .
  show ?thesis
    using ne by (simp add: r1 r2 Let_def stat_put_object new_object_simps)
qed

theorem dedup_folder_scoped_witness:
  "parent_folder_prefix ''silver/cvm/2023/f.parquet'' \<noteq> parent_folder_prefix ''silver/cvm/2024/g.parquet'' \<and>
   \<not> prefix (parent_folder_prefix ''silver/cvm/2024/g.parquet'') ''silver/cvm/2023/f.parquet'' \<and>
   artifacts_with_hash [] (parent_folder_prefix ''silver/cvm/2023/f.parquet'') (plain_digest ''xyz'') = [] \<and>
   artifacts_with_hash [] (parent_folder_prefix ''silver/cvm/2024/g.parquet'') (plain_digest ''xyz'') = [] \<and>
   (let r1 = save_file_to_bucket plain_digest [] ''silver/cvm/2023/f.parquet'' ''xyz''
               ''t1'' ''run1'' ''DRE'' ''parquet'' ''CVM'' None None;
        r2 = save_file_to_bucket plain_digest (fst r1) ''silver/cvm/2024/g.parquet'' ''xyz''
               ''t2'' ''run2'' ''DRE'' ''parquet'' ''CVM'' None None
    in snd r1 = Uploaded \<and> snd r2 = Uploaded \<and>
       map_option obj_data (stat_object (fst r2) ''silver/cvm/2023/f.parquet'') = Some ''xyz'' \<and>
       map_option obj_data (stat_object (fst r2) ''silver/cvm/2024/g.parquet'') = Some ''xyz'')"
proof -
  have h1: "parent_folder_prefix ''silver/cvm/2023/f.parquet'' \<noteq> parent_folder_prefix ''silver/cvm/2024/g.parquet''"
    by code_simp
  have h2: "\<not> prefix (parent_folder_prefix ''silver/cvm/2024/g.parquet'') ''silver/cvm/2023/f.parquet''"
    by code_simp
  have h3: "artifacts_with_hash [] (parent_folder_prefix ''silver/cvm/2023/f.parquet'') (plain_digest ''xyz'') = []"
    by code_simp
  have h4: "artifacts_with_hash [] (parent_folder_prefix ''silver/cvm/2024/g.parquet'') (plain_digest ''xyz'') = []"
    by code_simp
  show ?thesis
    using dedup_folder_scoped [where digest = plain_digest and b = "''xyz''", OF h1 h2 h3 h4] h1 h2 h3 h4
    by blast
qed

text \<open>
  Claim C9 as stated fails for nested folders: the listing is recursive, so a payload
  already stored in a subfolder makes the write into the enclosing folder abort.
\<close>

theorem dedup_nested_folder_counterexample:
  "parent_folder_prefix ''silver/cvm/2024/f.parquet'' \<noteq> parent_folder_prefix ''silver/cvm/g.parquet'' \<and>
   stat_object
     (fst (save_file_to_bucket plain_digest
        (fst (save_file_to_bucket plain_digest [] ''silver/cvm/2024/f.parquet'' ''xyz''
                ''t1'' ''run1'' ''DRE'' ''parquet'' ''CVM'' None None))
        ''silver/cvm/g.parquet'' ''xyz'' ''t2'' ''run2'' ''DRE'' ''parquet'' ''CVM'' None None))
     ''silver/cvm/g.parquet'' = None \<and>
   snd (save_file_to_bucket plain_digest
        (fst (save_file_to_bucket plain_digest [] ''silver/cvm/2024/f.parquet'' ''xyz''
                ''t1'' ''run1'' ''DRE'' ''parquet'' ''CVM'' None None))
        ''silver/cvm/g.parquet'' ''xyz'' ''t2'' ''run2'' ''DRE'' ''parquet'' ''CVM'' None None)
     = Aborted ''silver/cvm/2024/f.parquet''"
  by code_simp

section \<open>Properties of the metrics derivation\<close>

lemma pd_sum_map:
  "pd_sum (map f rows) = Some (\<Sum>r\<leftarrow>rows. case f r of Some v \<Rightarrow> v | None \<Rightarrow> 0)"
  unfolding pd_sum_def by (induction rows) (auto split: option.splits)

lemma get_account_value_exact:
  "get_account_value g c True =
     (\<Sum>r\<leftarrow>[r \<leftarrow> g. CD_CONTA r = c]. case enr_adjusted_account_value r of Some v \<Rightarrow> v | None \<Rightarrow> 0)"
  by (simp add: get_account_value_def pd_sum_map)

lemma get_account_value_prefix:
  "get_account_value g c False =
     (\<Sum>r\<leftarrow>[r \<leftarrow> g. prefix c (CD_CONTA r)]. case enr_adjusted_account_value r of Some v \<Rightarrow> v | None \<Rightarrow> 0)"
  by (simp add: get_account_value_def pd_sum_map)

text \<open>
  Claim C3. In exact mode \<open>get_account_value\<close> sums the adjusted values of exactly the
  rows whose \<open>CD_CONTA\<close> equals the requested code, in prefix mode of exactly the rows
  whose code starts with it (a null value counts as 0). For a group with the codes
  \<open>3.01\<close> (value 100) and \<open>3.010\<close> (value 999), the exact match on \<open>3.01\<close> is 100 and
  the prefix match is 1099. A group in which no row matches yields 0 in either mode.
\<close>

theorem get_account_value_match_modes:
  "get_account_value g c True =
     (\<Sum>r\<leftarrow>[r \<leftarrow> g. CD_CONTA r = c]. case enr_adjusted_account_value r of Some v \<Rightarrow> v | None \<Rightarrow> 0) \<and>
   get_account_value g c False =
     (\<Sum>r\<leftarrow>[r \<leftarrow> g. prefix c (CD_CONTA r)]. case enr_adjusted_account_value r of Some v \<Rightarrow> v | None \<Rightarrow> 0) \<and>
   (CD_CONTA r1 = ''3.01'' \<and> enr_adjusted_account_value r1 = Some 100 \<and>
    CD_CONTA r2 = ''3.010'' \<and> enr_adjusted_account_value r2 = Some 999 \<longrightarrow>
      get_account_value [r1, r2] ''3.01'' True = 100 \<and>
      get_account_value [r1, r2] ''3.01'' False = 1099) \<and>
   ((\<forall>r \<in> set g. CD_CONTA r \<noteq> c) \<longrightarrow> get_account_value g c True = 0) \<and>
   ((\<forall>r \<in> set g. \<not> prefix c (CD_CONTA r)) \<longrightarrow> get_account_value g c False = 0)"
proof (intro conjI impI)
  show "get_account_value g c True =
     (\<Sum>r\<leftarrow>[r \<leftarrow> g. CD_CONTA r = c]. case enr_adjusted_account_value r of Some v \<Rightarrow> v | None \<Rightarrow> 0)"
    by (rule get_account_value_exact)
  show "get_account_value g c False =
     (\<Sum>r\<leftarrow>[r \<leftarrow> g. prefix c (CD_CONTA r)]. case enr_adjusted_account_value r of Some v \<Rightarrow> v | None \<Rightarrow> 0)"
    by (rule get_account_value_prefix)
next
  assume ex: "CD_CONTA r1 = ''3.01'' \<and> enr_adjusted_account_value r1 = Some 100 \<and>
    CD_CONTA r2 = ''3.010'' \<and> enr_adjusted_account_value r2 = Some 999"
  then show "get_account_value [r1, r2] ''3.01'' True = 100"
    by (simp add: get_account_value_exact)
  from ex show "get_account_value [r1, r2] ''3.01'' False = 1099"
    by (simp add: get_account_value_prefix)
next
  assume "\<forall>r \<in> set g. CD_CONTA r \<noteq> c"
  then have "[r \<leftarrow> g. CD_CONTA r = c] = []"
    by (simp add: filter_empty_conv)
  then show "get_account_value g c True = 0"
    by (simp add: get_account_value_exact)
next
  assume "\<forall>r \<in> set g. \<not> prefix c (CD_CONTA r)"
  then have "[r \<leftarrow> g. prefix c (CD_CONTA r)] = []"
    by (simp add: filter_empty_conv)
  then show "get_account_value g c False = 0"
    by (simp add: get_account_value_prefix)
qed

lemma group_record_fields:
  "issuer_cnpj (group_record name g) = fst name"
  "date (group_record name g) = snd name"
  "quarter (group_record name g) = get_quarter (snd name)"
  "interest_paid (group_record name g) =
     (if get_account_value g ''6.01.02.02'' False \<noteq> 0
      then \<bar>get_account_value g ''6.01.02.02'' False\<bar>
      else \<bar>get_account_value g ''3.06.02'' True\<bar>)"
  by (simp_all add: group_record_def Let_def)

lemma set_group_names:
  "fst ` set (groupby_cnpj_dt_refer df) = (\<lambda>r. (CNPJ_CIA r, DT_REFER r)) ` set df"
  by (simp add: groupby_cnpj_dt_refer_def image_image)

lemma groupby_member:
  "(name, g) \<in> set (groupby_cnpj_dt_refer df) \<Longrightarrow>
     g = [r \<leftarrow> df. (CNPJ_CIA r, DT_REFER r) = name] \<and> name \<in> (\<lambda>r. (CNPJ_CIA r, DT_REFER r)) ` set df"
  by (auto simp: groupby_cnpj_dt_refer_def)

lemma distinct_group_names: "distinct (map fst (groupby_cnpj_dt_refer df))"
  by (simp add: groupby_cnpj_dt_refer_def comp_def distinct_sort)

lemma financials_names:
  "map (\<lambda>q. (issuer_cnpj q, date q)) (financials_quarterly df) = map fst (groupby_cnpj_dt_refer df)"
  by (simp add: financials_quarterly_def comp_def case_prod_unfold group_record_fields)

lemma quarterly_member:
  assumes "q \<in> set (financials_quarterly df)"
  shows "q = group_record (issuer_cnpj q, date q)
               [r \<leftarrow> df. CNPJ_CIA r = issuer_cnpj q \<and> DT_REFER r = date q] \<and>
         (\<exists>r \<in> set df. CNPJ_CIA r = issuer_cnpj q \<and> DT_REFER r = date q)"
proof -
  from assms obtain name g where ng: "(name, g) \<in> set (groupby_cnpj_dt_refer df)"
    and q: "q = group_record name g"
    by (auto simp: financials_quarterly_def)
  from groupby_member [OF ng] have g: "g = [r \<leftarrow> df. (CNPJ_CIA r, DT_REFER r) = name]"
    and mem: "name \<in> (\<lambda>r. (CNPJ_CIA r, DT_REFER r)) ` set df" by simp_all
  have name: "name = (issuer_cnpj q, date q)"
    by (simp add: q group_record_fields)
  have "g = [r \<leftarrow> df. CNPJ_CIA r = issuer_cnpj q \<and> DT_REFER r = date q]"
    unfolding g name by simp
  with q name mem show ?thesis by auto
qed

lemma distinct_count_one:
  "distinct xs \<Longrightarrow> x \<in> set xs \<Longrightarrow> length [y \<leftarrow> xs. y = x] = 1"
  by (induction xs) (auto simp: filter_empty_conv)

text \<open>
  Claim C4. The record of a group stores as \<open>interest_paid\<close> the absolute value of the
  prefix-match sum over \<open>6.01.02.02\<close> when that sum is not 0, and otherwise the absolute
  value of the exact-match value of \<open>3.06.02\<close>; with a cash-flow sum of 0 and an
  income-statement value of -50 it is 50. This holds for every record of \<open>results\<close>,
  the group being the rows of the table with the record's company and reference date.
\<close>

theorem interest_paid_fallback:
  "interest_paid (group_record name g) =
     (if get_account_value g ''6.01.02.02'' False \<noteq> 0
      then \<bar>get_account_value g ''6.01.02.02'' False\<bar>
      else \<bar>get_account_value g ''3.06.02'' True\<bar>) \<and>
   (get_account_value g ''6.01.02.02'' False = 0 \<and> get_account_value g ''3.06.02'' True = - 50 \<longrightarrow>
      interest_paid (group_record name g) = 50) \<and>
   (\<forall>q \<in> set (financials_quarterly df).
      interest_paid q =
        (let group_df = [r \<leftarrow> df. CNPJ_CIA r = issuer_cnpj q \<and> DT_REFER r = date q]
         in if get_account_value group_df ''6.01.02.02'' False \<noteq> 0
            then \<bar>get_account_value group_df ''6.01.02.02'' False\<bar>
            else \<bar>get_account_value group_df ''3.06.02'' True\<bar>))"
proof (intro conjI impI ballI)
  show "interest_paid (group_record name g) =
     (if get_account_value g ''6.01.02.02'' False \<noteq> 0
      then \<bar>get_account_value g ''6.01.02.02'' False\<bar>
      else \<bar>get_account_value g ''3.06.02'' True\<bar>)"
    by (rule group_record_fields)
next
  assume "get_account_value g ''6.01.02.02'' False = 0 \<and> get_account_value g ''3.06.02'' True = - 50"
  then show "interest_paid (group_record name g) = 50"
    by (simp add: group_record_fields)
next
  fix q assume "q \<in> set (financials_quarterly df)"
  from quarterly_member [OF this]
  have "q = group_record (issuer_cnpj q, date q)
               [r \<leftarrow> df. CNPJ_CIA r = issuer_cnpj q \<and> DT_REFER r = date q]" by simp
  then have "interest_paid q = interest_paid (group_record (issuer_cnpj q, date q)
               [r \<leftarrow> df. CNPJ_CIA r = issuer_cnpj q \<and> DT_REFER r = date q])" by simp
  then show "interest_paid q =
        (let group_df = [r \<leftarrow> df. CNPJ_CIA r = issuer_cnpj q \<and> DT_REFER r = date q]
         in if get_account_value group_df ''6.01.02.02'' False \<noteq> 0
            then \<bar>get_account_value group_df ''6.01.02.02'' False\<bar>
            else \<bar>get_account_value group_df ''3.06.02'' True\<bar>)"
    by (simp only: group_record_fields Let_def)
qed

text \<open>
  Claim C6. For every row of an enriched table, \<open>results\<close> holds exactly one record with
  the row's company identifier and reference date: one record per group present. Every
  record belongs to a group that is present, and its quarter is one of 1, 2, 3, 4, fixed
  by the month of the reference date: up to 3 gives 1, up to 6 gives 2, up to 9 gives 3,
  otherwise 4.
\<close>

theorem one_record_per_group:
  "(\<forall>r \<in> set df.
      length [q \<leftarrow> financials_quarterly df. issuer_cnpj q = CNPJ_CIA r \<and> date q = DT_REFER r] = 1) \<and>
   (\<forall>q \<in> set (financials_quarterly df).
      (\<exists>r \<in> set df. CNPJ_CIA r = issuer_cnpj q \<and> DT_REFER r = date q) \<and>
      quarter q \<in> {1, 2, 3, 4} \<and>
      quarter q = (if d_month (date q) \<le> 3 then 1 else if d_month (date q) \<le> 6 then 2
                   else if d_month (date q) \<le> 9 then 3 else 4))"
proof (intro conjI ballI)
  fix r assume r: "r \<in> set df"
  let ?names = "map (\<lambda>q. (issuer_cnpj q, date q)) (financials_quarterly df)"
  have d: "distinct ?names"
    by (simp only: financials_names distinct_group_names)
  have "set ?names = (\<lambda>r. (CNPJ_CIA r, DT_REFER r)) ` set df"
    by (simp only: financials_names set_map set_group_names)
  with r have m: "(CNPJ_CIA r, DT_REFER r) \<in> set ?names" by blast
  have "length [n \<leftarrow> ?names. n = (CNPJ_CIA r, DT_REFER r)] = 1"
    by (rule distinct_count_one [OF d m])
  moreover have "length [n \<leftarrow> ?names. n = (CNPJ_CIA r, DT_REFER r)] =
      length [q \<leftarrow> financials_quarterly df. issuer_cnpj q = CNPJ_CIA r \<and> date q = DT_REFER r]"
    by (simp add: filter_map comp_def)
  ultimately show "length [q \<leftarrow> financials_quarterly df. issuer_cnpj q = CNPJ_CIA r \<and> date q = DT_REFER r] = 1"
    by simp
next
  fix q assume q: "q \<in> set (financials_quarterly df)"
  from quarterly_member [OF q]
  show "\<exists>r \<in> set df. CNPJ_CIA r = issuer_cnpj q \<and> DT_REFER r = date q" by simp
  from quarterly_member [OF q]
  have eq: "q = group_record (issuer_cnpj q, date q)
               [r \<leftarrow> df. CNPJ_CIA r = issuer_cnpj q \<and> DT_REFER r = date q]" by simp
  have qq: "quarter q = get_quarter (date q)"
    by (subst eq) (simp add: group_record_fields)
  show "quarter q \<in> {1, 2, 3, 4}"
    by (simp add: qq get_quarter_def)
  show "quarter q = (if d_month (date q) \<le> 3 then 1 else if d_month (date q) \<le> 6 then 2
                   else if d_month (date q) \<le> 9 then 3 else 4)"
    by (simp add: qq get_quarter_def)
qed

theorem get_account_value_match_modes_witness:
  "CD_CONTA (account_row ''c'' (Date 2024 6 30) ''3.01'' (Some 100)) = ''3.01'' \<and>
   enr_adjusted_account_value (account_row ''c'' (Date 2024 6 30) ''3.01'' (Some 100)) = Some 100 \<and>
   CD_CONTA (account_row ''c'' (Date 2024 6 30) ''3.010'' (Some 999)) = ''3.010'' \<and>
   enr_adjusted_account_value (account_row ''c'' (Date 2024 6 30) ''3.010'' (Some 999)) = Some 999 \<and>
   get_account_value [account_row ''c'' (Date 2024 6 30) ''3.01'' (Some 100),
                      account_row ''c'' (Date 2024 6 30) ''3.010'' (Some 999)] ''3.01'' True = 100 \<and>
   get_account_value [account_row ''c'' (Date 2024 6 30) ''3.01'' (Some 100),
                      account_row ''c'' (Date 2024 6 30) ''3.010'' (Some 999)] ''3.01'' False = 1099 \<and>
   CD_CONTA (account_row ''c'' (Date 2024 6 30) ''3.01'' (Some 100)) \<noteq> ''6.02.01'' \<and>
   CD_CONTA (account_row ''c'' (Date 2024 6 30) ''3.010'' (Some 999)) \<noteq> ''6.02.01'' \<and>
   get_account_value [account_row ''c'' (Date 2024 6 30) ''3.01'' (Some 100),
                      account_row ''c'' (Date 2024 6 30) ''3.010'' (Some 999)] ''6.02.01'' True = 0 \<and>
   \<not> prefix ''6.02.01'' (CD_CONTA (account_row ''c'' (Date 2024 6 30) ''3.01'' (Some 100))) \<and>
   \<not> prefix ''6.02.01'' (CD_CONTA (account_row ''c'' (Date 2024 6 30) ''3.010'' (Some 999))) \<and>
   get_account_value [account_row ''c'' (Date 2024 6 30) ''3.01'' (Some 100),
                      account_row ''c'' (Date 2024 6 30) ''3.010'' (Some 999)] ''6.02.01'' False = 0"
proof -
  let ?r1 = "account_row ''c'' (Date 2024 6 30) ''3.01'' (Some 100)"
  let ?r2 = "account_row ''c'' (Date 2024 6 30) ''3.010'' (Some 999)"
  have h1: "CD_CONTA ?r1 = ''3.01'' \<and> enr_adjusted_account_value ?r1 = Some 100 \<and>
            CD_CONTA ?r2 = ''3.010'' \<and> enr_adjusted_account_value ?r2 = Some 999"
    by (simp add: account_row_def)
  have h2: "\<forall>r \<in> set [?r1, ?r2]. CD_CONTA r \<noteq> ''6.02.01''"
    by (simp add: account_row_def)
  have h3: "\<forall>r \<in> set [?r1, ?r2]. \<not> prefix ''6.02.01'' (CD_CONTA r)"
    by (simp add: account_row_def)
  from get_account_value_match_modes [of "[?r1, ?r2]" "''6.02.01''" ?r1 ?r2] h1 h2 h3
  show ?thesis by simp
qed

theorem interest_paid_fallback_witness:
  "get_account_value [account_row ''c'' (Date 2024 6 30) ''3.06.02'' (Some (- 50))] ''6.01.02.02'' False = 0 \<and>
   get_account_value [account_row ''c'' (Date 2024 6 30) ''3.06.02'' (Some (- 50))] ''3.06.02'' True = - 50 \<and>
   interest_paid (group_record (''c'', Date 2024 6 30)
      [account_row ''c'' (Date 2024 6 30) ''3.06.02'' (Some (- 50))]) = 50 \<and>
   map interest_paid
     (financials_quarterly [account_row ''c'' (Date 2024 6 30) ''3.06.02'' (Some (- 50))]) = [50]"
proof -
  let ?g = "[account_row ''c'' (Date 2024 6 30) ''3.06.02'' (Some (- 50))]"
  have h1: "get_account_value ?g ''6.01.02.02'' False = 0"
    by (simp add: get_account_value_prefix account_row_def)
  have h2: "get_account_value ?g ''3.06.02'' True = - 50"
    by (simp add: get_account_value_exact account_row_def)
  have ne: "financials_quarterly ?g \<noteq> []"
    by (simp add: financials_quarterly_def groupby_cnpj_dt_refer_def)
  have fq: "\<forall>q \<in> set (financials_quarterly ?g).
      [r \<leftarrow> ?g. CNPJ_CIA r = issuer_cnpj q \<and> DT_REFER r = date q] = ?g"
    by (simp add: financials_quarterly_def groupby_cnpj_dt_refer_def group_record_fields account_row_def)
  note T = interest_paid_fallback [of "(''c'', Date 2024 6 30)" ?g ?g]
  from T h1 h2 have a: "interest_paid (group_record (''c'', Date 2024 6 30) ?g) = 50"
    by blast
  have b: "\<forall>q \<in> set (financials_quarterly ?g). interest_paid q = 50"
  proof
    fix q assume q: "q \<in> set (financials_quarterly ?g)"
    with T have "interest_paid q =
        (let group_df = [r \<leftarrow> ?g. CNPJ_CIA r = issuer_cnpj q \<and> DT_REFER r = date q]
         in if get_account_value group_df ''6.01.02.02'' False \<noteq> 0
            then \<bar>get_account_value group_df ''6.01.02.02'' False\<bar>
            else \<bar>get_account_value group_df ''3.06.02'' True\<bar>)"
      by blast
    also from fq q have "[r \<leftarrow> ?g. CNPJ_CIA r = issuer_cnpj q \<and> DT_REFER r = date q] = ?g"
      by blast
    finally show "interest_paid q = 50"
      by (simp add: h1 h2)
  qed
  have len: "length (financials_quarterly ?g) = 1"
    by (simp add: financials_quarterly_def groupby_cnpj_dt_refer_def)
  have c: "map interest_paid (financials_quarterly ?g) = [50]"
  proof (cases "financials_quarterly ?g")
    case Nil
    with ne show ?thesis by simp
  next
    case (Cons q qs)
    with len have "qs = []" by simp
    with Cons b show ?thesis by simp
  qed
  from h1 h2 a c show ?thesis by blast
qed

theorem one_record_per_group_witness:
  "account_row ''c'' (Date 2024 6 30) ''3.01'' (Some 100) \<in>
     set [account_row ''c'' (Date 2024 6 30) ''3.01'' (Some 100),
          account_row ''c'' (Date 2024 6 30) ''3.05'' (Some 7),
          account_row ''c'' (Date 2024 12 31) ''3.01'' (Some 250)] \<and>
   length [q \<leftarrow> financials_quarterly
                  [account_row ''c'' (Date 2024 6 30) ''3.01'' (Some 100),
                   account_row ''c'' (Date 2024 6 30) ''3.05'' (Some 7),
                   account_row ''c'' (Date 2024 12 31) ''3.01'' (Some 250)].
             issuer_cnpj q = ''c'' \<and> date q = Date 2024 6 30] = 1 \<and>
   map quarter (financials_quarterly
                  [account_row ''c'' (Date 2024 6 30) ''3.01'' (Some 100),
                   account_row ''c'' (Date 2024 6 30) ''3.05'' (Some 7),
                   account_row ''c'' (Date 2024 12 31) ''3.01'' (Some 250)]) = [2, 4]"
proof -
  let ?r = "account_row ''c'' (Date 2024 6 30) ''3.01'' (Some 100)"
  let ?df = "[?r, account_row ''c'' (Date 2024 6 30) ''3.05'' (Some 7),
              account_row ''c'' (Date 2024 12 31) ''3.01'' (Some 250)]"
  have mem: "?r \<in> set ?df" by simp
  have key: "CNPJ_CIA ?r = ''c''" "DT_REFER ?r = Date 2024 6 30"
    by (simp_all add: account_row_def)
  have qs: "map quarter (financials_quarterly ?df) = [2, 4]"
    by code_simp
  note T = one_record_per_group [of ?df]
  from T mem have "length [q \<leftarrow> financials_quarterly ?df.
      issuer_cnpj q = CNPJ_CIA ?r \<and> date q = DT_REFER ?r] = 1"
    by blast
  then have one: "length [q \<leftarrow> financials_quarterly ?df.
      issuer_cnpj q = ''c'' \<and> date q = Date 2024 6 30] = 1"
    by (simp only: key)
  from mem one qs show ?thesis by blast
qed

section \<open>Properties of the reconciliation stage\<close>

lemma for_each_Inr:
  "for_each body xs = Inr ys \<Longrightarrow> x \<in> set xs \<Longrightarrow> \<exists>y. body x = Inr y"
  by (induction xs arbitrary: ys) (auto split: sum.splits)

lemma for_each_fails:
  "x \<in> set xs \<Longrightarrow> body x = Inl e \<Longrightarrow> \<exists>e'. for_each body xs = Inl e'"
proof -
  assume x: "x \<in> set xs" and b: "body x = Inl e"
  show ?thesis
  proof (cases "for_each body xs")
    case (Inl e')
    then show ?thesis by blast
  next
    case (Inr ys)
    from for_each_Inr [OF Inr x] b show ?thesis by simp
  qed
qed

lemma join_files_Inr:
  "join_files schema cfg store d acc ps = Inr out \<Longrightarrow> p \<in> set ps \<Longrightarrow>
     \<exists>t. clean_file schema cfg store d p = Inr t"
  by (induction ps arbitrary: acc) (auto split: sum.splits)

lemma join_files_fails:
  assumes "p \<in> set ps" and "clean_file schema cfg store d p = Inl e"
  shows "\<exists>e'. join_files schema cfg store d acc ps = Inl e'"
proof (cases "join_files schema cfg store d acc ps")
  case (Inl e')
  then show ?thesis by blast
next
  case (Inr out)
  from join_files_Inr [OF Inr assms(1)] assms(2) show ?thesis by simp
qed

lemma combinations_member:
  "(y, g, f) \<in> set (combinations years) \<longleftrightarrow>
     y \<in> set years \<and> g \<in> set FINANCIAL_STATEMENTS_GROUPING \<and> f \<in> set ITR_FILE_PART_TO_DOCUMENT_TYPE"
  by (auto simp: combinations_def)

lemma stage_fails:
  assumes "curr_year \<in> set years_to_process"
      and "(curr_agg_part, curr_agg) \<in> set FINANCIAL_STATEMENTS_GROUPING"
      and "(curr_file_part, curr_document_type) \<in> set ITR_FILE_PART_TO_DOCUMENT_TYPE"
      and "curr_file_path \<in> set files_path"
      and "sublist (curr_file_part @ curr_agg_part @ curr_year) curr_file_path"
      and "clean_file schema cfg store curr_document_type curr_file_path = Inl e"
  shows "\<exists>e'. FS_filter_and_clean schema cfg store files_path years_to_process = Inl e'"
proof -
  let ?c = "(curr_year, (curr_agg_part, curr_agg), (curr_file_part, curr_document_type))"
  let ?sel = "[file_path \<leftarrow> files_path. sublist (curr_file_part @ curr_agg_part @ curr_year) file_path]"
  have mem: "?c \<in> set (combinations years_to_process)"
    using assms(1-3) by (simp add: combinations_member)
  have "curr_file_path \<in> set ?sel"
    using assms(4,5) by simp
  from join_files_fails [OF this assms(6)]
  obtain e' where "join_files schema cfg store curr_document_type [] ?sel = Inl e'"
    by blast
  then have "clean_combination schema cfg store files_path ?c = Inl e'"
    by (simp add: clean_combination_def)
  from for_each_fails [where body = "clean_combination schema cfg store files_path", OF mem this]
  show ?thesis
    by (simp add: FS_filter_and_clean_def)
qed

lemma message_names_file_and_cnpj:
  "sublist curr_file_path (cnpj_filter_message curr_file_path formatted_cnpj) \<and>
   sublist formatted_cnpj (cnpj_filter_message curr_file_path formatted_cnpj)"
proof
  show "sublist curr_file_path (cnpj_filter_message curr_file_path formatted_cnpj)"
    unfolding cnpj_filter_message_def sublist_def
    by (metis append.assoc)
  show "sublist formatted_cnpj (cnpj_filter_message curr_file_path formatted_cnpj)"
    unfolding cnpj_filter_message_def sublist_def
    by (metis append.assoc)
qed

text \<open>
  Claim C7. For a raw file whose parsed table has the declared columns and no row of the
  configured CNPJ, the processing of the file ends in the assertion error whose message
  names the file path and the configured CNPJ; and when the file is selected by one of
  the stage's combinations of year, aggregation level and statement type, the stage
  returns an error instead of a list of cleaned tables.
\<close>

theorem empty_cnpj_filter_fails:
  assumes "map_of store curr_file_path = Some curr_file"
      and "tbl_columns curr_file = schema curr_document_type"
      and "[r \<leftarrow> tbl_rows curr_file. CNPJ_CIA r = cfg_formatted_cnpj cfg] = []"
  shows "clean_file schema cfg store curr_document_type curr_file_path =
           Inl (AssertionError (Some (cnpj_filter_message curr_file_path (cfg_formatted_cnpj cfg)))) \<and>
         sublist curr_file_path (cnpj_filter_message curr_file_path (cfg_formatted_cnpj cfg)) \<and>
         sublist (cfg_formatted_cnpj cfg) (cnpj_filter_message curr_file_path (cfg_formatted_cnpj cfg)) \<and>
         (curr_year \<in> set years_to_process \<and>
          (curr_agg_part, curr_agg) \<in> set FINANCIAL_STATEMENTS_GROUPING \<and>
          (curr_file_part, curr_document_type) \<in> set ITR_FILE_PART_TO_DOCUMENT_TYPE \<and>
          curr_file_path \<in> set files_path \<and>
          sublist (curr_file_part @ curr_agg_part @ curr_year) curr_file_path \<longrightarrow>
          (\<exists>e. FS_filter_and_clean schema cfg store files_path years_to_process = Inl e))"
proof -
  have err: "clean_file schema cfg store curr_document_type curr_file_path =
           Inl (AssertionError (Some (cnpj_filter_message curr_file_path (cfg_formatted_cnpj cfg))))"
    using assms by (simp add: clean_file_def)
  have stage: "\<exists>e. FS_filter_and_clean schema cfg store files_path years_to_process = Inl e"
    if "curr_year \<in> set years_to_process \<and>
          (curr_agg_part, curr_agg) \<in> set FINANCIAL_STATEMENTS_GROUPING \<and>
          (curr_file_part, curr_document_type) \<in> set ITR_FILE_PART_TO_DOCUMENT_TYPE \<and>
          curr_file_path \<in> set files_path \<and>
          sublist (curr_file_part @ curr_agg_part @ curr_year) curr_file_path"
    using that stage_fails [OF _ _ _ _ _ err] by blast
  from err stage message_names_file_and_cnpj show ?thesis by blast
qed

text \<open>
  Claim C8. For a raw file whose parsed column list differs from the column list of the
  declared schema of the document type (in content or in order), the processing of the
  file ends in an assertion error, and the stage returns an error when the file is
  selected by one of its combinations. A file is processed to rows only when its column
  list is exactly the declared one.
\<close>

theorem schema_mismatch_fails:
  "(map_of store curr_file_path = Some curr_file \<and>
    tbl_columns curr_file \<noteq> schema curr_document_type \<longrightarrow>
      clean_file schema cfg store curr_document_type curr_file_path = Inl (AssertionError None) \<and>
      (curr_year \<in> set years_to_process \<and>
       (curr_agg_part, curr_agg) \<in> set FINANCIAL_STATEMENTS_GROUPING \<and>
       (curr_file_part, curr_document_type) \<in> set ITR_FILE_PART_TO_DOCUMENT_TYPE \<and>
       curr_file_path \<in> set files_path \<and>
       sublist (curr_file_part @ curr_agg_part @ curr_year) curr_file_path \<longrightarrow>
       (\<exists>e. FS_filter_and_clean schema cfg store files_path years_to_process = Inl e))) \<and>
   (clean_file schema cfg store curr_document_type curr_file_path = Inr curr_file_df \<longrightarrow>
      (\<exists>t. map_of store curr_file_path = Some t \<and> tbl_columns t = schema curr_document_type))"
proof (intro conjI impI)
  assume a: "map_of store curr_file_path = Some curr_file \<and>
    tbl_columns curr_file \<noteq> schema curr_document_type"
  then show err: "clean_file schema cfg store curr_document_type curr_file_path = Inl (AssertionError None)"
    by (simp add: clean_file_def)
  assume "curr_year \<in> set years_to_process \<and>
       (curr_agg_part, curr_agg) \<in> set FINANCIAL_STATEMENTS_GROUPING \<and>
       (curr_file_part, curr_document_type) \<in> set ITR_FILE_PART_TO_DOCUMENT_TYPE \<and>
       curr_file_path \<in> set files_path \<and>
       sublist (curr_file_part @ curr_agg_part @ curr_year) curr_file_path"
  then show "\<exists>e. FS_filter_and_clean schema cfg store files_path years_to_process = Inl e"
    using stage_fails [OF _ _ _ _ _ err] by blast
next
  assume "clean_file schema cfg store curr_document_type curr_file_path = Inr curr_file_df"
  then show "\<exists>t. map_of store curr_file_path = Some t \<and> tbl_columns t = schema curr_document_type"
    by (auto simp: clean_file_def Let_def split: option.splits if_splits)
qed

section \<open>Properties of the enrichment stage\<close>

lemma update_fresh_key:
  "k \<notin> fst ` set al \<Longrightarrow> AList.update k v al = al @ [(k, v)]"
  by (induction al) auto

lemma set_update_subset:
  "set (AList.update k v al) \<subseteq> insert (k, v) (set al)"
  by (induction al) auto

lemma enrich_table_row:
  assumes "r \<in> set (enrich_table cfg document_type aggregation_type table)"
  shows "enr_adjusted_account_value r =
           cell_times (VL_CONTA r) (series_map ESCALA_MOEDA_MAPPING (ESCALA_MOEDA r)) \<and>
         enr_aggregation_type r = aggregation_type"
  using assms by (auto simp: enrich_table_def)

lemma length_enrich_table [simp]:
  "length (enrich_table cfg document_type aggregation_type table) = length table"
  by (simp add: enrich_table_def)

lemma DT_FIM_EXERC_enrich_table:
  "map DT_FIM_EXERC (enrich_table cfg document_type aggregation_type table) = map DT_FIM_EXERC table"
  by (simp add: enrich_table_def comp_def)

lemma enriched_tables_update:
  "enriched_tables cfg dfs \<Longrightarrow> enriched_tables cfg (AList.update k (enrich_table cfg d a table) dfs)"
  unfolding enriched_tables_def using set_update_subset [of k "enrich_table cfg d a table" dfs]
  by blast

lemma enrich_loop_tables:
  "enrich_loop cfg store ps ind con = Inr (ind', con') \<Longrightarrow>
   enriched_tables cfg ind \<Longrightarrow> enriched_tables cfg con \<Longrightarrow>
   enriched_tables cfg ind' \<and> enriched_tables cfg con'"
proof (induction ps arbitrary: ind con)
  case Nil
  then show ?case by simp
next
  case (Cons p ps)
  from Cons.prems(1) obtain md table a where
    st: "map_of store p = Some (md, table)" and ag: "fm_aggregation_type md = Some a"
    by (auto split: option.splits)
  let ?t = "enrich_table cfg (fm_document_type md) a table"
  consider (i) "a = AggValue INDIVIDUAL" | (c) "a = AggValue CONSOLIDADO"
    | (o) "a \<noteq> AggValue INDIVIDUAL" "a \<noteq> AggValue CONSOLIDADO" by blast
  then show ?case
  proof cases
    case i
    with Cons.prems(1) st ag
    have "enrich_loop cfg store ps (AList.update (dict_key_of p) ?t ind) con = Inr (ind', con')"
      by (simp add: Let_def)
    from Cons.IH [OF this enriched_tables_update [OF Cons.prems(2)] Cons.prems(3)]
    show ?thesis .
  next
    case c
    with Cons.prems(1) st ag
    have "enrich_loop cfg store ps ind (AList.update (dict_key_of p) ?t con) = Inr (ind', con')"
      by (simp add: Let_def)
    from Cons.IH [OF this Cons.prems(2) enriched_tables_update [OF Cons.prems(3)]]
    show ?thesis .
  next
    case o
    with Cons.prems(1) st ag
    have "enrich_loop cfg store ps ind con = Inr (ind', con')"
      by (simp add: Let_def)
    from Cons.IH [OF this Cons.prems(2,3)]
    show ?thesis .
  qed
qed

lemma enriched_tables_Nil [simp]: "enriched_tables cfg []"
  by (simp add: enriched_tables_def)

lemma pd_concat_Inr:
  "pd_concat dfs = Inr joined \<Longrightarrow> joined = concat (map snd dfs) \<and> dfs \<noteq> []"
  by (auto simp: pd_concat_def split: if_splits)

lemma FS_enrich_Inr:
  assumes "FS_enrich cfg store ps = Inr outs"
  shows "\<exists>ind con. enrich_loop cfg store ps [] [] = Inr (ind, con) \<and> ind \<noteq> [] \<and> con \<noteq> [] \<and>
           outs = [\<lparr> eo_aggregation = INDIVIDUAL,
                      eo_ref_date = column_max (map DT_FIM_EXERC (concat (map snd ind))),
                      eo_table = concat (map snd ind) \<rparr>,
                   \<lparr> eo_aggregation = CONSOLIDADO,
                      eo_ref_date = column_max (map DT_FIM_EXERC (concat (map snd con))),
                      eo_table = concat (map snd con) \<rparr>]"
  using assms
  by (auto simp: FS_enrich_def split: sum.splits dest!: pd_concat_Inr)

lemma FS_enrich_rows:
  assumes "FS_enrich cfg store ps = Inr outs" and "out \<in> set outs" and "r \<in> set (eo_table out)"
  shows "\<exists>d a table. r \<in> set (enrich_table cfg d a table)"
proof -
  from FS_enrich_Inr [OF assms(1)] obtain ind con where
    loop: "enrich_loop cfg store ps [] [] = Inr (ind, con)" and
    outs: "outs = [\<lparr> eo_aggregation = INDIVIDUAL,
                      eo_ref_date = column_max (map DT_FIM_EXERC (concat (map snd ind))),
                      eo_table = concat (map snd ind) \<rparr>,
                   \<lparr> eo_aggregation = CONSOLIDADO,
                      eo_ref_date = column_max (map DT_FIM_EXERC (concat (map snd con))),
                      eo_table = concat (map snd con) \<rparr>]"
    by blast
  from enrich_loop_tables [OF loop] have et: "enriched_tables cfg ind" "enriched_tables cfg con"
    by simp_all
  from assms(2,3) outs have "r \<in> set (concat (map snd ind)) \<or> r \<in> set (concat (map snd con))"
    by auto
  then obtain k t where "(k, t) \<in> set ind \<union> set con" and "r \<in> set t"
    by fastforce
  with et show ?thesis
    by (fastforce simp: enriched_tables_def)
qed

lemma mapping_keys:
  "series_map ESCALA_MOEDA_MAPPING u =
     (if u = ''UNIDADE'' then Some 1
      else if u = ''MIL'' then Some 1000
      else if u = ''MILHOES'' then Some 1000000
      else if u = ''MILH'' @ [CHR 0xD5] @ ''ES'' then Some 1000000
      else None)"
  by (simp add: series_map_def ESCALA_MOEDA_MAPPING_def)

text \<open>
  Claim C2, amended. In every row of an output of \<open>FS_enrich\<close> the adjusted account value
  is \<open>VL_CONTA\<close> times the constant the lookup table assigns to the row's \<open>ESCALA_MOEDA\<close>:
  1 for \<open>UNIDADE\<close>, 1000 for \<open>MIL\<close>, 1000000 for \<open>MILHOES\<close> in either spelling; so
  \<open>VL_CONTA = 1000\<close> gives 1000000 with \<open>MIL\<close> and 1000 with \<open>UNIDADE\<close>. For a row whose
  unit is no key of the table no error is raised: the row is kept and its adjusted value
  is null.
\<close>

theorem scale_correction:
  assumes "FS_enrich cfg store silver_cleaned_files_path = Inr outs"
      and "out \<in> set outs"
      and "r \<in> set (eo_table out)"
  shows "(ESCALA_MOEDA r = ''UNIDADE'' \<longrightarrow>
            enr_adjusted_account_value r = map_option (\<lambda>v. v * 1) (VL_CONTA r)) \<and>
         (ESCALA_MOEDA r = ''MIL'' \<longrightarrow>
            enr_adjusted_account_value r = map_option (\<lambda>v. v * 1000) (VL_CONTA r)) \<and>
         (ESCALA_MOEDA r = ''MILHOES'' \<or> ESCALA_MOEDA r = ''MILH'' @ [CHR 0xD5] @ ''ES'' \<longrightarrow>
            enr_adjusted_account_value r = map_option (\<lambda>v. v * 1000000) (VL_CONTA r)) \<and>
         (VL_CONTA r = Some 1000 \<and> ESCALA_MOEDA r = ''MIL'' \<longrightarrow>
            enr_adjusted_account_value r = Some 1000000) \<and>
         (VL_CONTA r = Some 1000 \<and> ESCALA_MOEDA r = ''UNIDADE'' \<longrightarrow>
            enr_adjusted_account_value r = Some 1000) \<and>
         (ESCALA_MOEDA r \<notin> fst ` set ESCALA_MOEDA_MAPPING \<longrightarrow>
            enr_adjusted_account_value r = None)"
proof -
  from FS_enrich_rows [OF assms] obtain d a table where "r \<in> set (enrich_table cfg d a table)"
    by blast
  from enrich_table_row [OF this]
  have adj: "enr_adjusted_account_value r =
           cell_times (VL_CONTA r) (series_map ESCALA_MOEDA_MAPPING (ESCALA_MOEDA r))"
    by simp
  have none: "series_map ESCALA_MOEDA_MAPPING (ESCALA_MOEDA r) = None"
    if "ESCALA_MOEDA r \<notin> fst ` set ESCALA_MOEDA_MAPPING"
    using that by (simp add: series_map_def map_of_eq_None_iff)
  show ?thesis
    using none
    by (auto simp: adj mapping_keys cell_times_def split: option.splits)
qed

lemma enriched_at_simps:
  assumes "aggregation_at store p = Some a"
  shows "\<exists>md table. map_of store p = Some (md, table) \<and> fm_aggregation_type md = Some a \<and>
           table_at store p = table \<and>
           enriched_at cfg store p = enrich_table cfg (fm_document_type md) a table"
  using assms
  by (auto simp: aggregation_at_def table_at_def enriched_at_def split: option.splits)

lemma enrich_loop_append:
  assumes "\<forall>p \<in> set ps. aggregation_at store p = Some (AggValue INDIVIDUAL) \<or>
                         aggregation_at store p = Some (AggValue CONSOLIDADO)"
      and "distinct (map dict_key_of [p \<leftarrow> ps. aggregation_at store p = Some (AggValue INDIVIDUAL)])"
      and "distinct (map dict_key_of [p \<leftarrow> ps. aggregation_at store p = Some (AggValue CONSOLIDADO)])"
      and "\<forall>p \<in> set ps. aggregation_at store p = Some (AggValue INDIVIDUAL) \<longrightarrow>
             dict_key_of p \<notin> fst ` set ind"
      and "\<forall>p \<in> set ps. aggregation_at store p = Some (AggValue CONSOLIDADO) \<longrightarrow>
             dict_key_of p \<notin> fst ` set con"
  shows "enrich_loop cfg store ps ind con =
     Inr (ind @ map (\<lambda>p. (dict_key_of p, enriched_at cfg store p))
                  [p \<leftarrow> ps. aggregation_at store p = Some (AggValue INDIVIDUAL)],
          con @ map (\<lambda>p. (dict_key_of p, enriched_at cfg store p))
                  [p \<leftarrow> ps. aggregation_at store p = Some (AggValue CONSOLIDADO)])"
  using assms
proof (induction ps arbitrary: ind con)
  case Nil
  then show ?case by simp
next
  case (Cons p ps)
  from Cons.prems(1) consider
      (i) "aggregation_at store p = Some (AggValue INDIVIDUAL)"
    | (c) "aggregation_at store p = Some (AggValue CONSOLIDADO)"
    by auto
  then show ?case
  proof cases
    case i
    from enriched_at_simps [OF i, of cfg] obtain md table where
      st: "map_of store p = Some (md, table)" and ag: "fm_aggregation_type md = Some (AggValue INDIVIDUAL)"
      and en: "enriched_at cfg store p = enrich_table cfg (fm_document_type md) (AggValue INDIVIDUAL) table"
      by blast
    have fresh: "dict_key_of p \<notin> fst ` set ind"
      using Cons.prems(4) i by simp
    let ?ind = "ind @ [(dict_key_of p, enriched_at cfg store p)]"
    have step: "enrich_loop cfg store (p # ps) ind con = enrich_loop cfg store ps ?ind con"
      using st ag en by (simp add: Let_def update_fresh_key [OF fresh])
    have d1: "distinct (map dict_key_of [p \<leftarrow> ps. aggregation_at store p = Some (AggValue INDIVIDUAL)])"
      using Cons.prems(2) i by simp
    have d2: "distinct (map dict_key_of [p \<leftarrow> ps. aggregation_at store p = Some (AggValue CONSOLIDADO)])"
      using Cons.prems(3) by (simp split: if_splits)
    have f1: "\<forall>q \<in> set ps. aggregation_at store q = Some (AggValue INDIVIDUAL) \<longrightarrow>
             dict_key_of q \<notin> fst ` set ?ind"
      using Cons.prems(2,4) i by (fastforce simp: image_iff)
    have f2: "\<forall>q \<in> set ps. aggregation_at store q = Some (AggValue CONSOLIDADO) \<longrightarrow>
             dict_key_of q \<notin> fst ` set con"
      using Cons.prems(5) by simp
    have a: "\<forall>q \<in> set ps. aggregation_at store q = Some (AggValue INDIVIDUAL) \<or>
                         aggregation_at store q = Some (AggValue CONSOLIDADO)"
      using Cons.prems(1) by simp
    show ?thesis
      unfolding step Cons.IH [OF a d1 d2 f1 f2] using i by simp
  next
    case c
    from enriched_at_simps [OF c, of cfg] obtain md table where
      st: "map_of store p = Some (md, table)" and ag: "fm_aggregation_type md = Some (AggValue CONSOLIDADO)"
      and en: "enriched_at cfg store p = enrich_table cfg (fm_document_type md) (AggValue CONSOLIDADO) table"
      by blast
    have fresh: "dict_key_of p \<notin> fst ` set con"
      using Cons.prems(5) c by simp
    let ?con = "con @ [(dict_key_of p, enriched_at cfg store p)]"
    have step: "enrich_loop cfg store (p # ps) ind con = enrich_loop cfg store ps ind ?con"
      using st ag en by (simp add: Let_def update_fresh_key [OF fresh])
    have d1: "distinct (map dict_key_of [p \<leftarrow> ps. aggregation_at store p = Some (AggValue INDIVIDUAL)])"
      using Cons.prems(2) by (simp split: if_splits)
    have d2: "distinct (map dict_key_of [p \<leftarrow> ps. aggregation_at store p = Some (AggValue CONSOLIDADO)])"
      using Cons.prems(3) c by simp
    have f1: "\<forall>q \<in> set ps. aggregation_at store q = Some (AggValue INDIVIDUAL) \<longrightarrow>
             dict_key_of q \<notin> fst ` set ind"
      using Cons.prems(4) by simp
    have f2: "\<forall>q \<in> set ps. aggregation_at store q = Some (AggValue CONSOLIDADO) \<longrightarrow>
             dict_key_of q \<notin> fst ` set ?con"
      using Cons.prems(3,5) c by (fastforce simp: image_iff)
    have a: "\<forall>q \<in> set ps. aggregation_at store q = Some (AggValue INDIVIDUAL) \<or>
                         aggregation_at store q = Some (AggValue CONSOLIDADO)"
      using Cons.prems(1) by simp
    show ?thesis
      unfolding step Cons.IH [OF a d1 d2 f1 f2] using c by simp
  qed
qed

lemma fold_date_max:
  "date_key d \<le> date_key (fold date_max ds d) \<and>
   (\<forall>x \<in> set ds. date_key x \<le> date_key (fold date_max ds d)) \<and>
   fold date_max ds d \<in> set (d # ds)"
proof (induction ds arbitrary: d)
  case Nil
  then show ?case by simp
next
  case (Cons x xs)
  have k: "date_key d \<le> date_key (date_max x d)" "date_key x \<le> date_key (date_max x d)"
    "date_max x d = d \<or> date_max x d = x"
    by (auto simp: date_max_def)
  from Cons [of "date_max x d"]
  have ih: "date_key (date_max x d) \<le> date_key (fold date_max xs (date_max x d))"
    "\<forall>y \<in> set xs. date_key y \<le> date_key (fold date_max xs (date_max x d))"
    "fold date_max xs (date_max x d) \<in> set (date_max x d # xs)"
    by simp_all
  have a: "date_key d \<le> date_key (fold date_max (x # xs) d)"
    using k(1) ih(1) by simp
  have b: "date_key x \<le> date_key (fold date_max (x # xs) d)"
    using k(2) ih(1) by simp
  have c: "\<forall>y \<in> set xs. date_key y \<le> date_key (fold date_max (x # xs) d)"
    using ih(2) by simp
  have e: "fold date_max (x # xs) d \<in> set (d # x # xs)"
    using ih(3) k(3) by auto
  from a b c e show ?case by simp
qed

lemma column_max_Some:
  assumes "ds \<noteq> []"
  shows "\<exists>m. column_max ds = Some m \<and> m \<in> set ds \<and> (\<forall>x \<in> set ds. date_key x \<le> date_key m)"
proof (cases ds)
  case Nil
  with assms show ?thesis by simp
next
  case (Cons d rest)
  from fold_date_max [of d rest] show ?thesis
    by (auto simp: Cons column_max_def)
qed

lemma enriched_at_aggregation:
  assumes "aggregation_at store p = Some a" and "r \<in> set (enriched_at cfg store p)"
  shows "enr_aggregation_type r = a"
proof -
  from enriched_at_simps [OF assms(1), of cfg] obtain md table where
    "map_of store p = Some (md, table)" and
    en: "enriched_at cfg store p = enrich_table cfg (fm_document_type md) a table"
    by auto
  from assms(2) have "r \<in> set (enrich_table cfg (fm_document_type md) a table)"
    by (simp only: en)
  from enrich_table_row [OF this] show ?thesis by simp
qed

lemma length_enriched_at:
  "aggregation_at store p = Some a \<Longrightarrow> length (enriched_at cfg store p) = length (table_at store p)"
  using enriched_at_simps [of store p a cfg] by auto

lemma partition_row_count:
  assumes "\<forall>p \<in> set ps. aggregation_at store p = Some (AggValue INDIVIDUAL) \<or>
                         aggregation_at store p = Some (AggValue CONSOLIDADO)"
  shows "length (concat (map (enriched_at cfg store)
            [p \<leftarrow> ps. aggregation_at store p = Some (AggValue INDIVIDUAL)])) +
         length (concat (map (enriched_at cfg store)
            [p \<leftarrow> ps. aggregation_at store p = Some (AggValue CONSOLIDADO)])) =
         (\<Sum>p\<leftarrow>ps. length (table_at store p))"
  using assms
proof (induction ps)
  case Nil
  then show ?case by simp
next
  case (Cons p ps)
  then show ?case
    by (auto simp: length_enriched_at)
qed

text \<open>
  Claim C5, amended. Let every input path hold a table whose metadata carries one of the
  two aggregation types, let the inputs of each aggregation type have pairwise distinct
  file names, and let each aggregation type have at least one input. Then \<open>FS_enrich\<close>
  emits exactly two outputs, the Individual one and the Consolidado one. Each holds the
  enriched rows of the inputs of its aggregation type, in input order, so every row of an
  output carries the output's aggregation type, and the two row counts add up to the
  row count of all input tables. The reference date of a non-empty output is a
  period-end date of the output that no other one exceeds.
\<close>

theorem enrich_partition:
  assumes "\<forall>p \<in> set ps. aggregation_at store p = Some (AggValue INDIVIDUAL) \<or>
                         aggregation_at store p = Some (AggValue CONSOLIDADO)"
      and "distinct (map dict_key_of [p \<leftarrow> ps. aggregation_at store p = Some (AggValue INDIVIDUAL)])"
      and "distinct (map dict_key_of [p \<leftarrow> ps. aggregation_at store p = Some (AggValue CONSOLIDADO)])"
      and "\<exists>p \<in> set ps. aggregation_at store p = Some (AggValue INDIVIDUAL)"
      and "\<exists>p \<in> set ps. aggregation_at store p = Some (AggValue CONSOLIDADO)"
  shows "\<exists>ind_out con_out.
     FS_enrich cfg store ps = Inr [ind_out, con_out] \<and>
     eo_aggregation ind_out = INDIVIDUAL \<and> eo_aggregation con_out = CONSOLIDADO \<and>
     eo_table ind_out = concat (map (enriched_at cfg store)
        [p \<leftarrow> ps. aggregation_at store p = Some (AggValue INDIVIDUAL)]) \<and>
     eo_table con_out = concat (map (enriched_at cfg store)
        [p \<leftarrow> ps. aggregation_at store p = Some (AggValue CONSOLIDADO)]) \<and>
     (\<forall>r \<in> set (eo_table ind_out). enr_aggregation_type r = AggValue INDIVIDUAL) \<and>
     (\<forall>r \<in> set (eo_table con_out). enr_aggregation_type r = AggValue CONSOLIDADO) \<and>
     length (eo_table ind_out) + length (eo_table con_out) = (\<Sum>p\<leftarrow>ps. length (table_at store p)) \<and>
     (\<forall>out \<in> {ind_out, con_out}. eo_table out \<noteq> [] \<longrightarrow>
        (\<exists>m. eo_ref_date out = Some m \<and> m \<in> DT_FIM_EXERC ` set (eo_table out) \<and>
             (\<forall>r \<in> set (eo_table out). date_key (DT_FIM_EXERC r) \<le> date_key m)))"
proof -
  let ?I = "[p \<leftarrow> ps. aggregation_at store p = Some (AggValue INDIVIDUAL)]"
  let ?C = "[p \<leftarrow> ps. aggregation_at store p = Some (AggValue CONSOLIDADO)]"
  let ?ti = "concat (map (enriched_at cfg store) ?I)"
  let ?tc = "concat (map (enriched_at cfg store) ?C)"
  let ?oi = "\<lparr> eo_aggregation = INDIVIDUAL, eo_ref_date = column_max (map DT_FIM_EXERC ?ti),
               eo_table = ?ti \<rparr>"
  let ?oc = "\<lparr> eo_aggregation = CONSOLIDADO, eo_ref_date = column_max (map DT_FIM_EXERC ?tc),
               eo_table = ?tc \<rparr>"
  have loop: "enrich_loop cfg store ps [] [] =
     Inr (map (\<lambda>p. (dict_key_of p, enriched_at cfg store p)) ?I,
          map (\<lambda>p. (dict_key_of p, enriched_at cfg store p)) ?C)"
    using enrich_loop_append [OF assms(1-3), of "[]" "[]" cfg] by simp
  have neI: "?I \<noteq> []" using assms(4) by (simp add: filter_empty_conv)
  have neC: "?C \<noteq> []" using assms(5) by (simp add: filter_empty_conv)
  have res: "FS_enrich cfg store ps = Inr [?oi, ?oc]"
    using neI neC by (simp add: FS_enrich_def loop pd_concat_def comp_def)
  have aggI: "\<forall>r \<in> set ?ti. enr_aggregation_type r = AggValue INDIVIDUAL"
    by (auto dest: enriched_at_aggregation)
  have aggC: "\<forall>r \<in> set ?tc. enr_aggregation_type r = AggValue CONSOLIDADO"
    by (auto dest: enriched_at_aggregation)
  have cnt: "length ?ti + length ?tc = (\<Sum>p\<leftarrow>ps. length (table_at store p))"
    by (rule partition_row_count [OF assms(1)])
  have ref: "\<exists>m. column_max (map DT_FIM_EXERC t) = Some m \<and> m \<in> DT_FIM_EXERC ` set t \<and>
             (\<forall>r \<in> set t. date_key (DT_FIM_EXERC r) \<le> date_key m)"
    if "t \<noteq> []" for t :: "enriched_row list"
    using column_max_Some [of "map DT_FIM_EXERC t"] that by auto
  have refs: "\<forall>out \<in> {?oi, ?oc}. eo_table out \<noteq> [] \<longrightarrow>
        (\<exists>m. eo_ref_date out = Some m \<and> m \<in> DT_FIM_EXERC ` set (eo_table out) \<and>
             (\<forall>r \<in> set (eo_table out). date_key (DT_FIM_EXERC r) \<le> date_key m))"
    using ref [of ?ti] ref [of ?tc] by simp
  show ?thesis
  proof (intro exI conjI)
    show "FS_enrich cfg store ps = Inr [?oi, ?oc]" by (rule res)
    show "eo_aggregation ?oi = INDIVIDUAL" by simp
    show "eo_aggregation ?oc = CONSOLIDADO" by simp
    show "eo_table ?oi = ?ti" by simp
    show "eo_table ?oc = ?tc" by simp
    show "\<forall>r \<in> set (eo_table ?oi). enr_aggregation_type r = AggValue INDIVIDUAL"
      using aggI by simp
    show "\<forall>r \<in> set (eo_table ?oc). enr_aggregation_type r = AggValue CONSOLIDADO"
      using aggC by simp
    show "length (eo_table ?oi) + length (eo_table ?oc) = (\<Sum>p\<leftarrow>ps. length (table_at store p))"
      using cnt by simp
    show "\<forall>out \<in> {?oi, ?oc}. eo_table out \<noteq> [] \<longrightarrow>
        (\<exists>m. eo_ref_date out = Some m \<and> m \<in> DT_FIM_EXERC ` set (eo_table out) \<and>
             (\<forall>r \<in> set (eo_table out). date_key (DT_FIM_EXERC r) \<le> date_key m))"
      by (rule refs)
  qed
qed

theorem empty_cnpj_filter_fails_witness:
  "map_of example_raw_store ''bronze/raw/itr_cia_aberta_DRE_con_2024.csv'' =
     Some \<lparr> tbl_columns = example_schema DRE,
            tbl_rows = [raw_example_row ''other'' (Date 2024 6 30) (Some 10) ''MIL''] \<rparr> \<and>
   [r \<leftarrow> [raw_example_row ''other'' (Date 2024 6 30) (Some 10) ''MIL''].
      CNPJ_CIA r = cfg_formatted_cnpj example_config] = [] \<and>
   clean_file example_schema example_config example_raw_store DRE
       ''bronze/raw/itr_cia_aberta_DRE_con_2024.csv'' =
     Inl (AssertionError (Some (cnpj_filter_message ''bronze/raw/itr_cia_aberta_DRE_con_2024.csv''
                                  (cfg_formatted_cnpj example_config)))) \<and>
   ''2024'' \<in> set [''2024''] \<and>
   (''_con_'', CONSOLIDADO) \<in> set FINANCIAL_STATEMENTS_GROUPING \<and>
   (''DRE'', DRE) \<in> set ITR_FILE_PART_TO_DOCUMENT_TYPE \<and>
   sublist (''DRE'' @ ''_con_'' @ ''2024'') ''bronze/raw/itr_cia_aberta_DRE_con_2024.csv'' \<and>
   (\<exists>e. FS_filter_and_clean example_schema example_config example_raw_store
           [''bronze/raw/itr_cia_aberta_DRE_con_2024.csv''] [''2024''] = Inl e)"
proof -
  let ?p = "''bronze/raw/itr_cia_aberta_DRE_con_2024.csv''"
  let ?t = "\<lparr> tbl_columns = example_schema DRE,
            tbl_rows = [raw_example_row ''other'' (Date 2024 6 30) (Some 10) ''MIL''] \<rparr>"
  have h1: "map_of example_raw_store ?p = Some ?t"
    by (simp add: example_raw_store_def)
  have h2: "tbl_columns ?t = example_schema DRE"
    by simp
  have h3: "[r \<leftarrow> tbl_rows ?t. CNPJ_CIA r = cfg_formatted_cnpj example_config] = []"
    by (simp add: raw_example_row_def example_config_def)
  have s1: "''2024'' \<in> set [''2024'']" by simp
  have s2: "(''_con_'', CONSOLIDADO) \<in> set FINANCIAL_STATEMENTS_GROUPING"
    by (simp add: FINANCIAL_STATEMENTS_GROUPING_def)
  have s3: "(''DRE'', DRE) \<in> set ITR_FILE_PART_TO_DOCUMENT_TYPE"
    by (simp add: ITR_FILE_PART_TO_DOCUMENT_TYPE_def)
  have s4: "?p \<in> set [?p]" by simp
  have s5: "sublist (''DRE'' @ ''_con_'' @ ''2024'') ?p"
    by code_simp
  note T = empty_cnpj_filter_fails [where schema = example_schema and curr_document_type = DRE
      and cfg = example_config, OF h1 h2 h3, where curr_year = "''2024''"
      and years_to_process = "[''2024'']" and curr_agg_part = "''_con_''" and curr_agg = CONSOLIDADO
      and curr_file_part = "''DRE''" and files_path = "[?p]"]
  from T h1 h3 s1 s2 s3 s4 s5 show ?thesis
    by simp
qed

theorem schema_mismatch_fails_witness:
  "map_of example_raw_store ''bronze/raw/itr_cia_aberta_BPA_con_2024.csv'' =
     Some \<lparr> tbl_columns = [''CNPJ_CIA'', ''DT_REFER''],
            tbl_rows = [raw_example_row ''c'' (Date 2024 6 30) (Some 10) ''MIL''] \<rparr> \<and>
   [''CNPJ_CIA'', ''DT_REFER''] \<noteq> example_schema BALANCO_PATRIMONIAL_ATIVO \<and>
   clean_file example_schema example_config example_raw_store BALANCO_PATRIMONIAL_ATIVO
       ''bronze/raw/itr_cia_aberta_BPA_con_2024.csv'' = Inl (AssertionError None) \<and>
   sublist (''BPA'' @ ''_con_'' @ ''2024'') ''bronze/raw/itr_cia_aberta_BPA_con_2024.csv'' \<and>
   (\<exists>e. FS_filter_and_clean example_schema example_config example_raw_store
           [''bronze/raw/itr_cia_aberta_BPA_con_2024.csv''] [''2024''] = Inl e) \<and>
   clean_file example_schema example_config example_raw_store BALANCO_PATRIMONIAL_PASSIVO
       ''bronze/raw/itr_cia_aberta_BPP_con_2024.csv'' =
     Inr [scale_row (Date 2024 6 30) (Some 10) ''MIL''] \<and>
   (\<exists>t. map_of example_raw_store ''bronze/raw/itr_cia_aberta_BPP_con_2024.csv'' = Some t \<and>
        tbl_columns t = example_schema BALANCO_PATRIMONIAL_PASSIVO)"
proof -
  let ?p = "''bronze/raw/itr_cia_aberta_BPA_con_2024.csv''"
  let ?q = "''bronze/raw/itr_cia_aberta_BPP_con_2024.csv''"
  let ?t = "\<lparr> tbl_columns = [''CNPJ_CIA'', ''DT_REFER''],
            tbl_rows = [raw_example_row ''c'' (Date 2024 6 30) (Some 10) ''MIL''] \<rparr>"
  have h1: "map_of example_raw_store ?p = Some ?t"
    by (simp add: example_raw_store_def)
  have h2: "[''CNPJ_CIA'', ''DT_REFER''] \<noteq> example_schema BALANCO_PATRIMONIAL_ATIVO"
    by (simp add: example_schema_def)
  then have h2': "tbl_columns ?t \<noteq> example_schema BALANCO_PATRIMONIAL_ATIVO"
    by simp
  have s1: "''2024'' \<in> set [''2024'']" by simp
  have s2: "(''_con_'', CONSOLIDADO) \<in> set FINANCIAL_STATEMENTS_GROUPING"
    by (simp add: FINANCIAL_STATEMENTS_GROUPING_def)
  have s3: "(''BPA'', BALANCO_PATRIMONIAL_ATIVO) \<in> set ITR_FILE_PART_TO_DOCUMENT_TYPE"
    by (simp add: ITR_FILE_PART_TO_DOCUMENT_TYPE_def)
  have s4: "?p \<in> set [?p]" by simp
  have s5: "sublist (''BPA'' @ ''_con_'' @ ''2024'') ?p"
    by code_simp
  have g: "clean_file example_schema example_config example_raw_store BALANCO_PATRIMONIAL_PASSIVO ?q =
     Inr [scale_row (Date 2024 6 30) (Some 10) ''MIL'']"
    by code_simp
  note A = schema_mismatch_fails [where store = example_raw_store and curr_file_path = ?p
      and curr_file = ?t and schema = example_schema and curr_document_type = BALANCO_PATRIMONIAL_ATIVO
      and cfg = example_config and curr_year = "''2024''"
      and years_to_process = "[''2024'']" and curr_agg_part = "''_con_''" and curr_agg = CONSOLIDADO
      and curr_file_part = "''BPA''" and files_path = "[?p]"]
  note B = schema_mismatch_fails [where store = example_raw_store and curr_file_path = ?q
      and schema = example_schema and curr_document_type = BALANCO_PATRIMONIAL_PASSIVO
      and cfg = example_config and curr_file_df = "[scale_row (Date 2024 6 30) (Some 10) ''MIL'']"]
  from A h1 h2' s1 s2 s3 s4 s5
  have a: "clean_file example_schema example_config example_raw_store BALANCO_PATRIMONIAL_ATIVO ?p =
             Inl (AssertionError None) \<and>
           (\<exists>e. FS_filter_and_clean example_schema example_config example_raw_store [?p] [''2024''] = Inl e)"
    by blast
  from B g
  have b: "\<exists>t. map_of example_raw_store ?q = Some t \<and>
        tbl_columns t = example_schema BALANCO_PATRIMONIAL_PASSIVO"
    by blast
  from a b h1 h2 s5 g show ?thesis by blast
qed

theorem scale_correction_witness:
  "FS_enrich example_config example_cleaned_store example_cleaned_paths =
     Inr (projr (FS_enrich example_config example_cleaned_store example_cleaned_paths)) \<and>
   ESCALA_MOEDA (eo_table (projr (FS_enrich example_config example_cleaned_store
                                    example_cleaned_paths) ! 0) ! 0) = ''MIL'' \<and>
   VL_CONTA (eo_table (projr (FS_enrich example_config example_cleaned_store
                                example_cleaned_paths) ! 0) ! 0) = Some 1000 \<and>
   enr_adjusted_account_value (eo_table (projr (FS_enrich example_config example_cleaned_store
                                example_cleaned_paths) ! 0) ! 0) = Some 1000000 \<and>
   ESCALA_MOEDA (eo_table (projr (FS_enrich example_config example_cleaned_store
                                    example_cleaned_paths) ! 0) ! 1) = ''UNIDADE'' \<and>
   VL_CONTA (eo_table (projr (FS_enrich example_config example_cleaned_store
                                example_cleaned_paths) ! 0) ! 1) = Some 1000 \<and>
   enr_adjusted_account_value (eo_table (projr (FS_enrich example_config example_cleaned_store
                                example_cleaned_paths) ! 0) ! 1) = Some 1000 \<and>
   ESCALA_MOEDA (eo_table (projr (FS_enrich example_config example_cleaned_store
                                    example_cleaned_paths) ! 1) ! 1) = ''MILHOES'' \<and>
   enr_adjusted_account_value (eo_table (projr (FS_enrich example_config example_cleaned_store
                                example_cleaned_paths) ! 1) ! 1) = Some 2000000 \<and>
   ESCALA_MOEDA (eo_table (projr (FS_enrich example_config example_cleaned_store
                                    example_cleaned_paths) ! 1) ! 0) \<notin> fst ` set ESCALA_MOEDA_MAPPING \<and>
   enr_adjusted_account_value (eo_table (projr (FS_enrich example_config example_cleaned_store
                                example_cleaned_paths) ! 1) ! 0) = None"
proof -
  let ?outs = "projr (FS_enrich example_config example_cleaned_store example_cleaned_paths)"
  have run: "FS_enrich example_config example_cleaned_store example_cleaned_paths = Inr ?outs"
    by code_simp
  have o0: "?outs ! 0 \<in> set ?outs" and o1: "?outs ! 1 \<in> set ?outs"
    by code_simp+
  have r00: "eo_table (?outs ! 0) ! 0 \<in> set (eo_table (?outs ! 0))"
    and r01: "eo_table (?outs ! 0) ! 1 \<in> set (eo_table (?outs ! 0))"
    and r10: "eo_table (?outs ! 1) ! 0 \<in> set (eo_table (?outs ! 1))"
    and r11: "eo_table (?outs ! 1) ! 1 \<in> set (eo_table (?outs ! 1))"
    by code_simp+
  have u00: "ESCALA_MOEDA (eo_table (?outs ! 0) ! 0) = ''MIL''"
    and v00: "VL_CONTA (eo_table (?outs ! 0) ! 0) = Some 1000"
    and u01: "ESCALA_MOEDA (eo_table (?outs ! 0) ! 1) = ''UNIDADE''"
    and v01: "VL_CONTA (eo_table (?outs ! 0) ! 1) = Some 1000"
    and u11: "ESCALA_MOEDA (eo_table (?outs ! 1) ! 1) = ''MILHOES''"
    and v11: "VL_CONTA (eo_table (?outs ! 1) ! 1) = Some 2"
    and u10: "ESCALA_MOEDA (eo_table (?outs ! 1) ! 0) \<notin> fst ` set ESCALA_MOEDA_MAPPING"
    by code_simp+
  note A = scale_correction [OF run o0 r00]
  note B = scale_correction [OF run o0 r01]
  note C = scale_correction [OF run o1 r11]
  note D = scale_correction [OF run o1 r10]
  from A u00 v00 have a: "enr_adjusted_account_value (eo_table (?outs ! 0) ! 0) = Some 1000000"
    by blast
  from B u01 v01 have b: "enr_adjusted_account_value (eo_table (?outs ! 0) ! 1) = Some 1000"
    by blast
  from C u11 have c0: "enr_adjusted_account_value (eo_table (?outs ! 1) ! 1) =
      map_option (\<lambda>v. v * 1000000) (VL_CONTA (eo_table (?outs ! 1) ! 1))"
    by blast
  have c: "enr_adjusted_account_value (eo_table (?outs ! 1) ! 1) = Some 2000000"
    unfolding c0 v11 by simp
  from D u10 have d: "enr_adjusted_account_value (eo_table (?outs ! 1) ! 0) = None"
    by blast
  from run a b c d u00 v00 u01 v01 u11 u10 show ?thesis
    by blast
qed

text \<open>
  Claim C2 as stated fails: a row whose unit is no key of the lookup table raises no
  error; the stage returns its two outputs and the row is among them with a null
  adjusted value.
\<close>

theorem unmapped_unit_counterexample:
  "\<not> isl (FS_enrich example_config example_cleaned_store example_cleaned_paths) \<and>
   ESCALA_MOEDA (eo_table (projr (FS_enrich example_config example_cleaned_store
                                    example_cleaned_paths) ! 1) ! 0) = ''BILHOES'' \<and>
   map_of ESCALA_MOEDA_MAPPING ''BILHOES'' = None \<and>
   enr_adjusted_account_value (eo_table (projr (FS_enrich example_config example_cleaned_store
                                example_cleaned_paths) ! 1) ! 0) = None"
  by code_simp

theorem enrich_partition_witness:
  "aggregation_at example_cleaned_store ''silver/cleaned/DRE_INDIVIDUAL_2024.parquet'' =
     Some (AggValue INDIVIDUAL) \<and>
   aggregation_at example_cleaned_store ''silver/cleaned/DRE_CONSOLIDADO_2024.parquet'' =
     Some (AggValue CONSOLIDADO) \<and>
   (\<exists>ind_out con_out.
      FS_enrich example_config example_cleaned_store example_cleaned_paths = Inr [ind_out, con_out] \<and>
      eo_aggregation ind_out = INDIVIDUAL \<and> eo_aggregation con_out = CONSOLIDADO \<and>
      length (eo_table ind_out) + length (eo_table con_out) = 4 \<and>
      eo_ref_date ind_out = Some (Date 2024 6 30) \<and>
      eo_ref_date con_out = Some (Date 2024 6 30))"
proof -
  let ?ps = example_cleaned_paths
  let ?st = example_cleaned_store
  have a1: "aggregation_at ?st ''silver/cleaned/DRE_INDIVIDUAL_2024.parquet'' = Some (AggValue INDIVIDUAL)"
    and a2: "aggregation_at ?st ''silver/cleaned/DRE_CONSOLIDADO_2024.parquet'' = Some (AggValue CONSOLIDADO)"
    by code_simp+
  have h1: "\<forall>p \<in> set ?ps. aggregation_at ?st p = Some (AggValue INDIVIDUAL) \<or>
                         aggregation_at ?st p = Some (AggValue CONSOLIDADO)"
    using a1 a2 by (simp add: example_cleaned_paths_def)
  have h2: "distinct (map dict_key_of [p \<leftarrow> ?ps. aggregation_at ?st p = Some (AggValue INDIVIDUAL)])"
    by code_simp
  have h3: "distinct (map dict_key_of [p \<leftarrow> ?ps. aggregation_at ?st p = Some (AggValue CONSOLIDADO)])"
    by code_simp
  have h4: "\<exists>p \<in> set ?ps. aggregation_at ?st p = Some (AggValue INDIVIDUAL)"
    using a1 by (simp add: example_cleaned_paths_def)
  have h5: "\<exists>p \<in> set ?ps. aggregation_at ?st p = Some (AggValue CONSOLIDADO)"
    using a2 by (simp add: example_cleaned_paths_def)
  have n: "(\<Sum>p\<leftarrow>?ps. length (table_at ?st p)) = 4"
    by code_simp
  have rd: "map eo_ref_date (projr (FS_enrich example_config ?st ?ps)) =
              [Some (Date 2024 6 30), Some (Date 2024 6 30)]"
    by code_simp
  from enrich_partition [OF h1 h2 h3 h4 h5, of example_config]
  obtain ind_out con_out where
    run: "FS_enrich example_config ?st ?ps = Inr [ind_out, con_out]" and
    ag: "eo_aggregation ind_out = INDIVIDUAL" "eo_aggregation con_out = CONSOLIDADO" and
    len: "length (eo_table ind_out) + length (eo_table con_out) = (\<Sum>p\<leftarrow>?ps. length (table_at ?st p))"
    by blast
  from rd run have "eo_ref_date ind_out = Some (Date 2024 6 30)" "eo_ref_date con_out = Some (Date 2024 6 30)"
    by simp_all
  with run ag len n a1 a2 show ?thesis
    by auto
qed

text \<open>
  Claim C5 as stated fails on inputs of a single aggregation type, for which the stage
  raises the error of \<open>pd.concat\<close> and emits nothing, and on inputs of one aggregation
  type that share a file name, of which only the last table is kept: three input rows
  leave two output rows.
\<close>

theorem enrich_partition_counterexample:
  "FS_enrich example_config
     [(''silver/cleaned/DRE_INDIVIDUAL_2024.parquet'', cleaned_metadata DRE INDIVIDUAL,
         [scale_row (Date 2024 3 31) (Some 1000) ''MIL''])]
     [''silver/cleaned/DRE_INDIVIDUAL_2024.parquet''] =
     Inl (ValueError ''No objects to concatenate'') \<and>
   sum_list (map (\<lambda>p. length (table_at colliding_cleaned_store p))
     [''silver/cleaned/2023/DRE.parquet'', ''silver/cleaned/2024/DRE.parquet'',
      ''silver/cleaned/2024/DRE_con.parquet'']) = 3 \<and>
   map (\<lambda>out. length (eo_table out))
     (projr (FS_enrich example_config colliding_cleaned_store
        [''silver/cleaned/2023/DRE.parquet'', ''silver/cleaned/2024/DRE.parquet'',
         ''silver/cleaned/2024/DRE_con.parquet''])) = [1, 1]"
  by code_simp

end
